theory Spec2Isabelle
  imports Complex_Main "HOL-Library.Log_Nat"
begin

section \<open>JavaScript numbers\<close>

text \<open>
  The load tester computes with JavaScript numbers. Counters, byte totals and
  millisecond latencies (differences of \<^verbatim>\<open>Date.now()\<close> readings) are integers and
  are modelled as \<open>nat\<close> and \<open>int\<close>. Other numbers are doubles: a finite double is
  the rational it stands for, and every sum, product and quotient is rounded to the
  nearest double, as IEEE 754 prescribes. The sign of zero is not modelled.
\<close>

datatype jsnum = Fin rat | PosInfinity | NegInfinity | NaN

text \<open>
  For \<open>a > 0\<close>, the exponent \<open>e\<close> with \<open>2 ^ e \<le> a < 2 ^ (e + 1)\<close>, from the bit lengths
  of numerator \<open>p\<close> and denominator \<open>q\<close>: with \<open>d\<close> their difference, \<open>a\<close> lies
  between \<open>2 ^ (d - 1)\<close> and \<open>2 ^ (d + 1)\<close>, and \<open>2 ^ d \<le> p / q\<close> is decided on
  integers.
\<close>

definition binade :: "rat \<Rightarrow> int" where
  "binade a =
     (let p = fst (quotient_of a); q = snd (quotient_of a);
          d = bitlen p - bitlen q
      in if q * 2 ^ nat d \<le> p * 2 ^ nat (- d) then d else d - 1)"

text \<open>
  Rounding \<open>a = p / q > 0\<close> to 53 significant bits, or to a multiple of
  \<open>2 ^ (- 1074)\<close> where doubles are subnormal: with \<open>e\<close> the exponent of the last
  place, \<open>a / 2 ^ e\<close> is the fraction \<open>n / dn\<close> of integers, which is rounded to the
  nearest integer \<open>m\<close>, the even one of two that are equally near; the result is
  \<open>m * 2 ^ e\<close>. Then rounding any rational, whatever its size.
\<close>

definition round_positive :: "rat \<Rightarrow> rat" where
  "round_positive a =
     (let p = fst (quotient_of a); q = snd (quotient_of a);
          e = max (binade a - 52) (- 1074);
          n = p * 2 ^ nat (- e);
          dn = q * 2 ^ nat e;
          f = n div dn;
          r = n mod dn;
          m = (if 2 * r < dn then f else if dn < 2 * r then f + 1
               else if even f then f else f + 1)
      in Fract (m * 2 ^ nat e) (2 ^ nat (- e)))"

definition double_of :: "rat \<Rightarrow> rat" where
  "double_of x =
     (if x = 0 then 0 else if x < 0 then - round_positive (- x) else round_positive x)"

text \<open>
  The double nearest to a rational: a rounded value of magnitude \<open>2 ^ 1024\<close> or
  more, that is of exponent \<open>1024\<close> or more, overflows.
\<close>

definition to_double :: "rat \<Rightarrow> jsnum" where
  "to_double x =
     (let r = double_of x
      in if r = 0 then Fin 0
         else if 1024 \<le> binade \<bar>r\<bar> then (if r < 0 then NegInfinity else PosInfinity)
         else Fin r)"

fun js_neg :: "jsnum \<Rightarrow> jsnum" where
  "js_neg (Fin a) = Fin (- a)"
| "js_neg PosInfinity = NegInfinity"
| "js_neg NegInfinity = PosInfinity"
| "js_neg NaN = NaN"

fun js_add :: "jsnum \<Rightarrow> jsnum \<Rightarrow> jsnum" where
  "js_add NaN _ = NaN"
| "js_add _ NaN = NaN"
| "js_add (Fin a) (Fin b) = to_double (a + b)"
| "js_add PosInfinity NegInfinity = NaN"
| "js_add NegInfinity PosInfinity = NaN"
| "js_add PosInfinity _ = PosInfinity"
| "js_add NegInfinity _ = NegInfinity"
| "js_add (Fin a) b = b"

definition js_sub :: "jsnum \<Rightarrow> jsnum \<Rightarrow> jsnum" where
  "js_sub a b = js_add a (js_neg b)"

text \<open>The sign of a number that is not \<open>NaN\<close>: \<open>-1\<close>, \<open>0\<close> or \<open>1\<close>.\<close>

fun js_sign :: "jsnum \<Rightarrow> int" where
  "js_sign (Fin a) = (if a < 0 then - 1 else if a = 0 then 0 else 1)"
| "js_sign PosInfinity = 1"
| "js_sign NegInfinity = - 1"
| "js_sign NaN = 0"

definition signed_infinity :: "int \<Rightarrow> jsnum" where
  "signed_infinity s = (if s < 0 then NegInfinity else if s = 0 then NaN else PosInfinity)"

fun js_mul :: "jsnum \<Rightarrow> jsnum \<Rightarrow> jsnum" where
  "js_mul NaN _ = NaN"
| "js_mul _ NaN = NaN"
| "js_mul (Fin a) (Fin b) = to_double (a * b)"
| "js_mul a b = signed_infinity (js_sign a * js_sign b)"

fun js_div :: "jsnum \<Rightarrow> jsnum \<Rightarrow> jsnum" where
  "js_div NaN _ = NaN"
| "js_div _ NaN = NaN"
| "js_div (Fin a) (Fin b) = (if b = 0 then signed_infinity (js_sign (Fin a)) else to_double (a / b))"
| "js_div (Fin a) _ = Fin 0"
| "js_div a (Fin b) = signed_infinity (js_sign a * (if b < 0 then - 1 else 1))"
| "js_div _ _ = NaN"

fun js_abs :: "jsnum \<Rightarrow> jsnum" where
  "js_abs (Fin a) = Fin \<bar>a\<bar>"
| "js_abs PosInfinity = PosInfinity"
| "js_abs NegInfinity = PosInfinity"
| "js_abs NaN = NaN"

text \<open>\<^verbatim>\<open>a < b\<close>; every comparison with \<open>NaN\<close> is false.\<close>

fun js_less :: "jsnum \<Rightarrow> jsnum \<Rightarrow> bool" where
  "js_less NaN _ = False"
| "js_less _ NaN = False"
| "js_less (Fin a) (Fin b) = (a < b)"
| "js_less (Fin a) PosInfinity = True"
| "js_less (Fin a) NegInfinity = False"
| "js_less PosInfinity _ = False"
| "js_less NegInfinity NegInfinity = False"
| "js_less NegInfinity _ = True"

definition js_greater :: "jsnum \<Rightarrow> jsnum \<Rightarrow> bool" where
  "js_greater a b = js_less b a"

text \<open>\<^verbatim>\<open>Math.min\<close> and \<^verbatim>\<open>Math.max\<close> of two numbers.\<close>

definition Math_min :: "jsnum \<Rightarrow> jsnum \<Rightarrow> jsnum" where
  "Math_min a b = (if a = NaN \<or> b = NaN then NaN else if js_less b a then b else a)"

definition Math_max :: "jsnum \<Rightarrow> jsnum \<Rightarrow> jsnum" where
  "Math_max a b = (if a = NaN \<or> b = NaN then NaN else if js_less a b then b else a)"

text \<open>
  \<^verbatim>\<open>x.toFixed(d)\<close>, given as the decimal number that the string denotes: of the
  decimals with \<open>d\<close> fraction digits the one nearest to the exact value of \<open>x\<close>,
  the larger one when two are equally near, the sign treated apart. Non-finite
  values print as themselves.
\<close>

definition toFixed_rat :: "nat \<Rightarrow> rat \<Rightarrow> rat" where
  "toFixed_rat d x =
     (if x < 0 then - (of_int \<lfloor>(- x) * 10 ^ d + 1 / 2\<rfloor> / 10 ^ d)
      else of_int \<lfloor>x * 10 ^ d + 1 / 2\<rfloor> / 10 ^ d)"

fun toFixed :: "nat \<Rightarrow> jsnum \<Rightarrow> jsnum" where
  "toFixed d (Fin x) = Fin (toFixed_rat d x)"
| "toFixed d x = x"

text \<open>
  \<^verbatim>\<open>parseFloat(s)\<close> of a string made by \<^verbatim>\<open>toFixed\<close>, given as the decimal number
  the string denotes: the double nearest to it.
\<close>

fun parseFloat :: "jsnum \<Rightarrow> jsnum" where
  "parseFloat (Fin x) = to_double x"
| "parseFloat x = x"

text \<open>\<^verbatim>\<open>xs[i]\<close>: \<open>None\<close> stands for \<^verbatim>\<open>undefined\<close>, the value of an index out of range.\<close>

definition js_index :: "'a list \<Rightarrow> int \<Rightarrow> 'a option" where
  "js_index xs i = (if 0 \<le> i \<and> i < int (length xs) then Some (xs ! nat i) else None)"

section \<open>The metrics accumulator\<close>

text \<open>The \<^verbatim>\<open>TestStats\<close> object of \<^verbatim>\<open>route.ts\<close>; the command-line scripts build the same object.\<close>

record LatencyBuckets =
  b_0_50ms :: nat
  b_50_100ms :: nat
  b_100_200ms :: nat
  b_200_500ms :: nat
  b_500ms_plus :: nat

record QuerySample =
  queryNum :: int
  latency :: int
  bytes :: nat
  limit :: "int option"

record TestStats =
  queries :: "QuerySample list"
  totalQueries :: nat
  successfulQueries :: nat
  failedQueries :: nat
  totalBytesTransferred :: nat
  totalLatency :: int
  minLatency :: jsnum
  maxLatency :: jsnum
  errors :: "(int \<times> string) list"
  startTime :: int
  endTime :: int
  latencyBuckets :: LatencyBuckets

definition createStats :: TestStats where
  "createStats =
     \<lparr>queries = [], totalQueries = 0, successfulQueries = 0, failedQueries = 0,
      totalBytesTransferred = 0, totalLatency = 0, minLatency = PosInfinity,
      maxLatency = Fin 0, errors = [], startTime = 0, endTime = 0,
      latencyBuckets = \<lparr>b_0_50ms = 0, b_50_100ms = 0, b_100_200ms = 0,
        b_200_500ms = 0, b_500ms_plus = 0\<rparr>\<rparr>"

text \<open>
  What the awaited query did: it resolved, after \<open>latency\<close> milliseconds and with a
  result whose JSON text has \<open>bytes\<close> characters, or the \<^verbatim>\<open>try\<close> block threw with a
  message before any statistic was touched.
\<close>

datatype QueryResponse = Resolved int nat | Rejected string

text \<open>The \<^verbatim>\<open>if\<close>/\<^verbatim>\<open>else if\<close> chain over the latency buckets.\<close>

definition count_in_bucket :: "int \<Rightarrow> LatencyBuckets \<Rightarrow> LatencyBuckets" where
  "count_in_bucket lat b =
     (if lat < 50 then b\<lparr>b_0_50ms := b_0_50ms b + 1\<rparr>
      else if lat < 100 then b\<lparr>b_50_100ms := b_50_100ms b + 1\<rparr>
      else if lat < 200 then b\<lparr>b_100_200ms := b_100_200ms b + 1\<rparr>
      else if lat < 500 then b\<lparr>b_200_500ms := b_200_500ms b + 1\<rparr>
      else b\<lparr>b_500ms_plus := b_500ms_plus b + 1\<rparr>)"

text \<open>
  \<^verbatim>\<open>executeQueryWithSharedClient\<close>: the \<^verbatim>\<open>try\<close> branch on a resolved query, the
  \<^verbatim>\<open>catch\<close> branch on a rejected one, and the \<^verbatim>\<open>finally\<close> block after either. The
  object it returns is dropped by every caller; the model returns the statistics.
\<close>

definition executeQueryWithSharedClient ::
  "int \<Rightarrow> int option \<Rightarrow> QueryResponse \<Rightarrow> TestStats \<Rightarrow> TestStats" where
  "executeQueryWithSharedClient qn lmt resp stats =
     (let after =
        (case resp of
           Resolved lat bytesTransferred \<Rightarrow>
             stats\<lparr>successfulQueries := successfulQueries stats + 1,
               totalBytesTransferred := totalBytesTransferred stats + bytesTransferred,
               totalLatency := totalLatency stats + lat,
               minLatency := Math_min (minLatency stats) (Fin (of_int lat)),
               maxLatency := Math_max (maxLatency stats) (Fin (of_int lat)),
               latencyBuckets := count_in_bucket lat (latencyBuckets stats),
               queries := queries stats @
                 [\<lparr>queryNum = qn, latency = lat, bytes = bytesTransferred, limit = lmt\<rparr>]\<rparr>
         | Rejected msg \<Rightarrow>
             stats\<lparr>failedQueries := failedQueries stats + 1,
               errors := errors stats @ [(qn, msg)]\<rparr>)
      in after\<lparr>totalQueries := totalQueries after + 1\<rparr>)"

text \<open>
  \<^verbatim>\<open>executeQueryWithNewClient\<close> builds a client of its own and then runs the same
  statements on the statistics.
\<close>

definition executeQueryWithNewClient ::
  "int \<Rightarrow> int option \<Rightarrow> QueryResponse \<Rightarrow> TestStats \<Rightarrow> TestStats" where
  "executeQueryWithNewClient qn lmt resp stats =
     (let after =
        (case resp of
           Resolved lat bytesTransferred \<Rightarrow>
             stats\<lparr>successfulQueries := successfulQueries stats + 1,
               totalBytesTransferred := totalBytesTransferred stats + bytesTransferred,
               totalLatency := totalLatency stats + lat,
               minLatency := Math_min (minLatency stats) (Fin (of_int lat)),
               maxLatency := Math_max (maxLatency stats) (Fin (of_int lat)),
               latencyBuckets := count_in_bucket lat (latencyBuckets stats),
               queries := queries stats @
                 [\<lparr>queryNum = qn, latency = lat, bytes = bytesTransferred, limit = lmt\<rparr>]\<rparr>
         | Rejected msg \<Rightarrow>
             stats\<lparr>failedQueries := failedQueries stats + 1,
               errors := errors stats @ [(qn, msg)]\<rparr>)
      in after\<lparr>totalQueries := totalQueries after + 1\<rparr>)"

text \<open>
  \<^verbatim>\<open>executeQuery\<close> of the advanced script uses the module's one client and runs the
  same statements again.
\<close>

definition executeQuery ::
  "int \<Rightarrow> int option \<Rightarrow> QueryResponse \<Rightarrow> TestStats \<Rightarrow> TestStats" where
  "executeQuery qn lmt resp stats =
     (let after =
        (case resp of
           Resolved lat bytesTransferred \<Rightarrow>
             stats\<lparr>successfulQueries := successfulQueries stats + 1,
               totalBytesTransferred := totalBytesTransferred stats + bytesTransferred,
               totalLatency := totalLatency stats + lat,
               minLatency := Math_min (minLatency stats) (Fin (of_int lat)),
               maxLatency := Math_max (maxLatency stats) (Fin (of_int lat)),
               latencyBuckets := count_in_bucket lat (latencyBuckets stats),
               queries := queries stats @
                 [\<lparr>queryNum = qn, latency = lat, bytes = bytesTransferred, limit = lmt\<rparr>]\<rparr>
         | Rejected msg \<Rightarrow>
             stats\<lparr>failedQueries := failedQueries stats + 1,
               errors := errors stats @ [(qn, msg)]\<rparr>)
      in after\<lparr>totalQueries := totalQueries after + 1\<rparr>)"

text \<open>
  A call as the accumulator sees it: its 1-based number, the limit it asked for and
  what the query did. \<open>record_calls\<close> feeds a sequence of them to fresh
  statistics; \<open>shared\<close> picks the executor.
\<close>

type_synonym CallOutcome = "int \<times> int option \<times> QueryResponse"

definition record_outcome :: "bool \<Rightarrow> TestStats \<Rightarrow> CallOutcome \<Rightarrow> TestStats" where
  "record_outcome shared stats c =
     (if shared then executeQueryWithSharedClient else executeQueryWithNewClient)
       (fst c) (fst (snd c)) (snd (snd c)) stats"

definition record_calls :: "bool \<Rightarrow> CallOutcome list \<Rightarrow> TestStats" where
  "record_calls shared cs = foldl (record_outcome shared) createStats cs"

fun is_failure :: "QueryResponse \<Rightarrow> bool" where
  "is_failure (Rejected msg) = True"
| "is_failure (Resolved lat b) = False"

section \<open>The percentile engine\<close>

text \<open>The object returned by \<^verbatim>\<open>calculateMetrics\<close> in \<^verbatim>\<open>route.ts\<close>.\<close>

record PerformanceReport =
  rep_duration :: rat
  rep_qps :: jsnum
  rep_avgLatency :: rat
  rep_medianLatency :: "int option"
  rep_p95Latency :: "int option"
  rep_p99Latency :: "int option"
  rep_minLatency :: jsnum
  rep_maxLatency :: jsnum
  rep_totalMB :: rat
  rep_successRate :: jsnum
  rep_latencyBuckets :: LatencyBuckets
  rep_errors :: "(int \<times> string) list"

text \<open>
  \<^verbatim>\<open>stats.queries.map(q => q.latency).sort((a, b) => a - b)\<close>: the latencies in
  ascending order.
\<close>

definition sorted_latencies :: "TestStats \<Rightarrow> int list" where
  "sorted_latencies stats = sort (map latency (queries stats))"

text \<open>
  \<^verbatim>\<open>calculateMetrics\<close> of \<^verbatim>\<open>route.ts\<close>. Its quotients are rounded to doubles; the
  three that are finite whatever the statistics are kept as rationals. The products \<^verbatim>\<open>0.95 * n\<close> and
  \<^verbatim>\<open>0.99 * n\<close> are taken exactly: the doubles written \<^verbatim>\<open>0.95\<close> and \<^verbatim>\<open>0.99\<close>
  lie just below these fractions, so the rounded product does not pass the integer
  that the exact product reaches or stays under. Fields read by index are \<open>None\<close>
  where JavaScript yields \<^verbatim>\<open>undefined\<close>.
\<close>

definition calculateMetrics :: "TestStats \<Rightarrow> PerformanceReport" where
  "calculateMetrics stats =
     (let totalDuration = double_of (of_int (endTime stats - startTime stats) / 1000);
          queriesPerSecond = js_div (Fin (of_nat (totalQueries stats))) (Fin totalDuration);
          avgLatency = (if successfulQueries stats > 0
             then double_of (of_int (totalLatency stats) / of_nat (successfulQueries stats))
             else 0);
          totalMB = double_of (double_of (of_nat (totalBytesTransferred stats) / 1024) / 1024);
          latencies = sorted_latencies stats;
          medianLatency = (if length latencies > 0
             then js_index latencies (int (length latencies div 2)) else Some 0);
          p95Latency = (if length latencies > 0
             then js_index latencies (\<lceil>(95 / 100 :: rat) * of_nat (length latencies)\<rceil> - 1)
             else Some 0);
          p99Latency = (if length latencies > 0
             then js_index latencies (\<lceil>(99 / 100 :: rat) * of_nat (length latencies)\<rceil> - 1)
             else Some 0)
      in \<lparr>rep_duration = totalDuration,
          rep_qps = queriesPerSecond,
          rep_avgLatency = avgLatency,
          rep_medianLatency = medianLatency,
          rep_p95Latency = p95Latency,
          rep_p99Latency = p99Latency,
          rep_minLatency = (if minLatency stats = PosInfinity then Fin 0 else minLatency stats),
          rep_maxLatency = maxLatency stats,
          rep_totalMB = totalMB,
          rep_successRate =
            js_mul (js_div (Fin (of_nat (successfulQueries stats)))
                      (Fin (of_nat (totalQueries stats)))) (Fin 100),
          rep_latencyBuckets = latencyBuckets stats,
          rep_errors = take 5 (errors stats)\<rparr>)"

text \<open>
  \<^verbatim>\<open>calculateMedianLatency(stats)\<close> of the comparison script. It returns the
  string made by \<^verbatim>\<open>toFixed(0)\<close>; the model returns the number that string
  denotes. Past the guard the list is not empty, so \<open>mid\<close> is an index of it, and
  so is \<open>mid - 1\<close> when the length is even.
\<close>

definition calculateMedianLatency :: "TestStats \<Rightarrow> rat" where
  "calculateMedianLatency stats =
     (if length (queries stats) = 0 then 0
      else
        let latencies = sorted_latencies stats;
            mid = length latencies div 2
        in if length latencies mod 2 = 0
           then toFixed_rat 0
                  ((of_int (latencies ! (mid - 1)) + of_int (latencies ! mid)) / 2)
           else toFixed_rat 0 (of_int (latencies ! mid)))"

text \<open>
  \<^verbatim>\<open>calculatePercentile(stats, percentile)\<close> of the comparison script:
  \<^verbatim>\<open>latencies[index]?.toFixed(0) || 0\<close>. A string made by \<^verbatim>\<open>toFixed\<close> is never
  empty, so only an index out of range gives the \<open>0\<close>.
\<close>

definition calculatePercentile :: "TestStats \<Rightarrow> rat \<Rightarrow> rat" where
  "calculatePercentile stats percentile =
     (if length (queries stats) = 0 then 0
      else
        let latencies = sorted_latencies stats;
            index = \<lceil>(percentile / 100) * of_nat (length latencies)\<rceil> - 1
        in case js_index latencies index of
             None \<Rightarrow> 0
           | Some v \<Rightarrow> toFixed_rat 0 (of_int v))"

text \<open>The object returned by \<^verbatim>\<open>displayResults(mode, stats)\<close> of the comparison script.\<close>

record StrategyResults =
  res_duration :: jsnum
  res_qps :: jsnum
  res_avgLatency :: jsnum
  res_medianLatency :: jsnum
  res_p95Latency :: jsnum
  res_p99Latency :: jsnum
  res_minLatency :: jsnum
  res_maxLatency :: jsnum
  res_totalMB :: jsnum

definition displayResults :: "TestStats \<Rightarrow> StrategyResults" where
  "displayResults stats =
     (let totalDuration = double_of (of_int (endTime stats - startTime stats) / 1000);
          queriesPerSecond =
            toFixed 2 (js_div (Fin (of_nat (totalQueries stats))) (Fin totalDuration));
          avgLatency = (if successfulQueries stats > 0
             then toFixed 2 (js_div (Fin (of_int (totalLatency stats)))
                               (Fin (of_nat (successfulQueries stats))))
             else Fin 0);
          totalMB = toFixed 2
             (js_div (js_div (Fin (of_nat (totalBytesTransferred stats))) (Fin 1024)) (Fin 1024))
      in \<lparr>res_duration = Fin totalDuration,
          res_qps = parseFloat queriesPerSecond,
          res_avgLatency = parseFloat avgLatency,
          res_medianLatency = parseFloat (Fin (calculateMedianLatency stats)),
          res_p95Latency = parseFloat (Fin (calculatePercentile stats 95)),
          res_p99Latency = parseFloat (Fin (calculatePercentile stats 99)),
          res_minLatency = (if minLatency stats = PosInfinity then Fin 0 else minLatency stats),
          res_maxLatency = maxLatency stats,
          res_totalMB = parseFloat totalMB\<rparr>)"

section \<open>The strategy comparator\<close>

text \<open>
  \<^verbatim>\<open>displayComparison\<close> prints; the model returns what the printed lines say. A
  table row names the strategy it calls faster and gives the absolute difference
  and the absolute percentage. A summary line names a strategy and a percentage.
  All arithmetic is in doubles. A percentage is the decimal number printed: the
  string made by \<^verbatim>\<open>toFixed(1)\<close>, or \<^verbatim>\<open>Math.abs\<close> of that string, which prints as
  the same digits without the sign as long as doubles are finer than a tenth.
\<close>

datatype Strategy = SharedClient | NewClient

record MetricRow =
  row_winner :: Strategy
  row_difference :: jsnum
  row_percent :: jsnum

definition compare_metric :: "bool \<Rightarrow> jsnum \<Rightarrow> jsnum \<Rightarrow> MetricRow" where
  "compare_metric lowerIsBetter shared newClient =
     (let diff = js_sub shared newClient;
          percentDiff = toFixed 1 (js_mul (js_div diff newClient) (Fin 100));
          winner = (if lowerIsBetter
             then (if js_less shared newClient then SharedClient else NewClient)
             else (if js_greater shared newClient then SharedClient else NewClient))
      in \<lparr>row_winner = winner, row_difference = toFixed 2 (js_abs diff),
          row_percent = js_abs percentDiff\<rparr>)"

record Comparison =
  cmp_rows :: "MetricRow list"
  cmp_latency_line :: "Strategy \<times> jsnum"
  cmp_throughput_line :: "Strategy \<times> jsnum"
  cmp_recommend_shared :: bool

definition displayComparison :: "StrategyResults \<Rightarrow> StrategyResults \<Rightarrow> Comparison" where
  "displayComparison sharedResults newClientResults =
     (let rows =
            [compare_metric True (res_avgLatency sharedResults) (res_avgLatency newClientResults),
             compare_metric True (res_medianLatency sharedResults) (res_medianLatency newClientResults),
             compare_metric True (res_p95Latency sharedResults) (res_p95Latency newClientResults),
             compare_metric True (res_p99Latency sharedResults) (res_p99Latency newClientResults),
             compare_metric True (res_minLatency sharedResults) (res_minLatency newClientResults),
             compare_metric True (res_maxLatency sharedResults) (res_maxLatency newClientResults),
             compare_metric False (res_qps sharedResults) (res_qps newClientResults),
             compare_metric True (res_duration sharedResults) (res_duration newClientResults)];
          avgLatencyImprovement =
            toFixed 1 (js_mul
              (js_div (js_sub (res_avgLatency newClientResults) (res_avgLatency sharedResults))
                 (res_avgLatency newClientResults)) (Fin 100));
          qpsImprovement =
            toFixed 1 (js_mul
              (js_div (js_sub (res_qps sharedResults) (res_qps newClientResults))
                 (res_qps newClientResults)) (Fin 100))
      in \<lparr>cmp_rows = rows,
          cmp_latency_line =
            (if js_greater (parseFloat avgLatencyImprovement) (Fin 0)
             then (SharedClient, avgLatencyImprovement)
             else (NewClient, js_abs avgLatencyImprovement)),
          cmp_throughput_line =
            (if js_greater (parseFloat qpsImprovement) (Fin 0)
             then (SharedClient, qpsImprovement)
             else (NewClient, js_abs qpsImprovement)),
          cmp_recommend_shared =
            (js_greater (parseFloat avgLatencyImprovement) (Fin 5)
             \<or> js_greater (parseFloat qpsImprovement) (Fin 5))\<rparr>)"

section \<open>The query pattern resolver\<close>

text \<open>
  An entry of \<^verbatim>\<open>TEST_PATTERNS\<close> has either a \<^verbatim>\<open>limit\<close> or a list of \<^verbatim>\<open>limits\<close>.
  The first table is that of \<^verbatim>\<open>route.ts\<close>, the second that of the command-line
  scripts.
\<close>

datatype PatternEntry = FixedLimit int | MixedLimits "int list"

definition TEST_PATTERNS :: "(string \<times> PatternEntry) list" where
  "TEST_PATTERNS =
     [(''small'', FixedLimit 1), (''medium'', FixedLimit 10), (''large'', FixedLimit 50),
      (''xlarge'', FixedLimit 100), (''xxlarge'', FixedLimit 250), (''huge'', FixedLimit 500),
      (''massive'', FixedLimit 1000), (''mixed'', MixedLimits [1, 10, 50, 100, 250, 500])]"

definition TEST_PATTERNS_cli :: "(string \<times> PatternEntry) list" where
  "TEST_PATTERNS_cli =
     [(''small'', FixedLimit 1), (''medium'', FixedLimit 10), (''large'', FixedLimit 50),
      (''mixed'', MixedLimits [1, 5, 10, 25, 50])]"

text \<open>
  \<^verbatim>\<open>obj[key]\<close> on an object literal finds an own property, or else a property that
  every object inherits from \<^verbatim>\<open>Object.prototype\<close>, or else \<^verbatim>\<open>undefined\<close>. None of
  the inherited values has a \<^verbatim>\<open>limit\<close> or \<^verbatim>\<open>limits\<close> property.
\<close>

definition Object_prototype_keys :: "string list" where
  "Object_prototype_keys =
     [''constructor'', ''hasOwnProperty'', ''isPrototypeOf'', ''propertyIsEnumerable'',
      ''toLocaleString'', ''toString'', ''valueOf'', ''__proto__'', ''__defineGetter__'',
      ''__defineSetter__'', ''__lookupGetter__'', ''__lookupSetter__'']"

datatype 'a js_property = OwnValue 'a | InheritedValue | UndefinedValue

definition js_get :: "(string \<times> 'a) list \<Rightarrow> string \<Rightarrow> 'a js_property" where
  "js_get obj key =
     (case map_of obj key of
        Some v \<Rightarrow> OwnValue v
      | None \<Rightarrow> if key \<in> set Object_prototype_keys then InheritedValue else UndefinedValue)"

datatype js_error = TypeError

text \<open>\<^verbatim>\<open>a % b\<close> for integers and positive \<open>b\<close>: the result has the sign of \<open>a\<close>.\<close>

definition js_rem :: "int \<Rightarrow> int \<Rightarrow> int" where
  "js_rem a b = (if a < 0 then - ((- a) mod b) else a mod b)"

text \<open>
  The body shared by the \<^verbatim>\<open>getQueryLimit\<close> functions, over the table each one
  reads. Reading a property of \<^verbatim>\<open>undefined\<close> throws a \<^verbatim>\<open>TypeError\<close>; reading a
  property that an object does not have gives \<^verbatim>\<open>undefined\<close> (\<open>None\<close>).
\<close>

definition resolve_limit ::
  "(string \<times> PatternEntry) list \<Rightarrow> int \<Rightarrow> string \<Rightarrow> js_error + int option" where
  "resolve_limit table qn pat =
     (let testPattern = js_get table pat in
      if pat = ''mixed'' then
        (case testPattern of
           OwnValue (MixedLimits limits) \<Rightarrow>
             Inr (js_index limits (js_rem qn (int (length limits))))
         | OwnValue (FixedLimit l) \<Rightarrow> Inl TypeError
         | InheritedValue \<Rightarrow> Inl TypeError
         | UndefinedValue \<Rightarrow> Inl TypeError)
      else
        (case testPattern of
           OwnValue (FixedLimit l) \<Rightarrow> Inr (Some l)
         | OwnValue (MixedLimits limits) \<Rightarrow> Inr None
         | InheritedValue \<Rightarrow> Inr None
         | UndefinedValue \<Rightarrow> Inl TypeError))"

text \<open>\<^verbatim>\<open>getQueryLimit(queryNum, pattern)\<close> of \<^verbatim>\<open>route.ts\<close>.\<close>

definition getQueryLimit :: "int \<Rightarrow> string \<Rightarrow> js_error + int option" where
  "getQueryLimit qn pat = resolve_limit TEST_PATTERNS qn pat"

text \<open>
  \<^verbatim>\<open>getQueryLimit(queryNum)\<close> of the command-line scripts, which read the pattern
  from \<^verbatim>\<open>CONFIG.pattern\<close>.
\<close>

definition getQueryLimit_cli :: "string \<Rightarrow> int \<Rightarrow> js_error + int option" where
  "getQueryLimit_cli config_pattern qn = resolve_limit TEST_PATTERNS_cli qn config_pattern"

section \<open>The batch dispatcher\<close>

record LoadTestConfig =
  cfg_pattern :: string
  cfg_totalQueries :: int
  cfg_concurrency :: int

text \<open>A launched call: its 1-based number and the limit it asks for.\<close>

type_synonym Call = "int \<times> int option"

text \<open>
  The \<^verbatim>\<open>for\<close> loop that fills a batch, from index \<open>i\<close> with \<open>k\<close> rounds to go.
  Each round resolves the limit and then launches the call; a throw of the resolver
  leaves the loop with the calls launched so far.
\<close>

fun launch_calls ::
  "(int \<Rightarrow> js_error + int option) \<Rightarrow> int \<Rightarrow> int \<Rightarrow> nat \<Rightarrow> Call list
     \<Rightarrow> Call list \<times> js_error option" where
  "launch_calls resolve queryCount i 0 batch = (batch, None)"
| "launch_calls resolve queryCount i (Suc k) batch =
     (case resolve (queryCount + i) of
        Inl e \<Rightarrow> (batch, Some e)
      | Inr lmt \<Rightarrow>
          launch_calls resolve queryCount (i + 1) k (batch @ [(queryCount + i + 1, lmt)]))"

text \<open>
  \<^verbatim>\<open>await Promise.all(batch)\<close>: every call of the batch settles and is recorded. The
  calls are recorded in launch order here; \<open>shared\<close> tells which executor
  \<^verbatim>\<open>runLoadTest\<close> picked.
\<close>

definition settle_batch ::
  "bool \<Rightarrow> (int \<Rightarrow> QueryResponse) \<Rightarrow> Call list \<Rightarrow> TestStats \<Rightarrow> TestStats" where
  "settle_batch shared respond batch stats =
     foldl (\<lambda>s c. (if shared then executeQueryWithSharedClient else executeQueryWithNewClient)
                     (fst c) (snd c) (respond (fst c)) s) stats batch"

text \<open>
  The \<^verbatim>\<open>while\<close> loop of \<^verbatim>\<open>runLoadTest\<close>, which \<^verbatim>\<open>route.ts\<close> and the
  comparison script share word for word but for the resolver they call: \<open>resolve\<close>
  is that call, \<open>n\<close> the configured number of queries and \<open>conc\<close> the configured
  concurrency. The loop returns the batches launched and either the error thrown
  or the statistics; \<open>None\<close> means that the loop never ends.
\<close>

partial_function (option) dispatch_loop ::
  "(int \<Rightarrow> js_error + int option) \<Rightarrow> int \<Rightarrow> int \<Rightarrow> bool \<Rightarrow> (int \<Rightarrow> QueryResponse) \<Rightarrow> int
     \<Rightarrow> Call list list \<Rightarrow> TestStats \<Rightarrow> (Call list list \<times> (js_error + TestStats)) option" where
  "dispatch_loop resolve n conc shared respond queryCount batches stats =
     (if queryCount < n then
        (let batchSize = min conc (n - queryCount);
             launched = launch_calls resolve queryCount 0 (nat batchSize) []
         in case snd launched of
              Some e \<Rightarrow> Some (batches @ [fst launched], Inl e)
            | None \<Rightarrow>
                dispatch_loop resolve n conc shared respond (queryCount + batchSize)
                  (batches @ [fst launched]) (settle_batch shared respond (fst launched) stats))
      else Some (batches, Inr stats))"

declare dispatch_loop.simps [code]

datatype TestMode = SharedMode | NewMode

text \<open>
  \<^verbatim>\<open>runLoadTest(config, mode, sharedClient)\<close> of \<^verbatim>\<open>route.ts\<close>. \<open>sharedClient\<close>
  tells whether a client was passed; \<open>ta\<close> and \<open>tb\<close> are the two readings of the
  clock.
\<close>

definition runLoadTest ::
  "LoadTestConfig \<Rightarrow> TestMode \<Rightarrow> bool \<Rightarrow> (int \<Rightarrow> QueryResponse) \<Rightarrow> int \<Rightarrow> int
     \<Rightarrow> (Call list list \<times> (js_error + TestStats)) option" where
  "runLoadTest config mode sharedClient respond ta tb =
     (case dispatch_loop (\<lambda>qn. getQueryLimit qn (cfg_pattern config))
             (cfg_totalQueries config) (cfg_concurrency config)
             (mode = SharedMode \<and> sharedClient) respond 0 [] (createStats\<lparr>startTime := ta\<rparr>) of
        None \<Rightarrow> None
      | Some (batches, Inl e) \<Rightarrow> Some (batches, Inl e)
      | Some (batches, Inr stats) \<Rightarrow> Some (batches, Inr (stats\<lparr>endTime := tb\<rparr>)))"

text \<open>
  \<^verbatim>\<open>runLoadTest(mode, executeQueryFn, sharedClient)\<close> of the comparison script,
  whose \<^verbatim>\<open>CONFIG\<close> has the same three fields. Printing \<^verbatim>\<open>pattern.name\<close> throws
  when the pattern lookup gave \<^verbatim>\<open>undefined\<close>. The script passes the shared-client
  executor together with a client and the fresh-client executor without one.
\<close>

definition runLoadTest_compare ::
  "LoadTestConfig \<Rightarrow> bool \<Rightarrow> (int \<Rightarrow> QueryResponse) \<Rightarrow> int \<Rightarrow> int
     \<Rightarrow> (Call list list \<times> (js_error + TestStats)) option" where
  "runLoadTest_compare config sharedClient respond ta tb =
     (if js_get TEST_PATTERNS_cli (cfg_pattern config) = UndefinedValue
      then Some ([], Inl TypeError)
      else
        (case dispatch_loop (getQueryLimit_cli (cfg_pattern config))
                (cfg_totalQueries config) (cfg_concurrency config)
                sharedClient respond 0 [] (createStats\<lparr>startTime := ta\<rparr>) of
           None \<Rightarrow> None
         | Some (batches, Inl e) \<Rightarrow> Some (batches, Inl e)
         | Some (batches, Inr stats) \<Rightarrow> Some (batches, Inr (stats\<lparr>endTime := tb\<rparr>))))"

text \<open>
  The batch-building loop of \<^verbatim>\<open>runLoadTest\<close> in \<^verbatim>\<open>load-test.mjs\<close>: it steps \<open>i\<close> by
  the concurrency and puts the query numbers \<open>i + j + 1\<close> into each batch.
\<close>

partial_function (option) create_batches ::
  "int \<Rightarrow> int \<Rightarrow> int \<Rightarrow> int list list \<Rightarrow> int list list option" where
  "create_batches n conc i batches =
     (if i < n then
        (let batchSize = min conc (n - i)
         in create_batches n conc (i + conc)
              (batches @ [map (\<lambda>j. i + int j + 1) [0..<nat batchSize]]))
      else Some batches)"

declare create_batches.simps [code]

text \<open>
  The advanced script's \<^verbatim>\<open>CONFIG\<close> and the loop of its \<^verbatim>\<open>runLoadTest\<close>. The
  loop test \<^verbatim>\<open>shouldContinue\<close> reads the clock when a duration is set; \<open>clock k\<close>
  is the reading at the \<open>k\<close>-th test.
\<close>

record AdvancedConfig =
  adv_pattern :: string
  adv_totalQueries :: int
  adv_concurrency :: int
  adv_duration :: int

definition shouldContinue :: "AdvancedConfig \<Rightarrow> int \<Rightarrow> int \<Rightarrow> int \<Rightarrow> bool" where
  "shouldContinue config ta now queryCount =
     (if adv_duration config > 0
      then (of_int (now - ta) / 1000 :: rat) < of_int (adv_duration config)
      else queryCount < adv_totalQueries config)"

partial_function (option) advanced_loop ::
  "AdvancedConfig \<Rightarrow> (int \<Rightarrow> QueryResponse) \<Rightarrow> int \<Rightarrow> (nat \<Rightarrow> int) \<Rightarrow> nat \<Rightarrow> int
     \<Rightarrow> Call list list \<Rightarrow> TestStats \<Rightarrow> (Call list list \<times> (js_error + TestStats)) option" where
  "advanced_loop config respond ta clock k queryCount batches stats =
     (if shouldContinue config ta (clock k) queryCount then
        (let batchSize = min (adv_concurrency config) (adv_totalQueries config - queryCount);
             launched = launch_calls (getQueryLimit_cli (adv_pattern config))
                          queryCount 0 (nat batchSize) []
         in case snd launched of
              Some e \<Rightarrow> Some (batches @ [fst launched], Inl e)
            | None \<Rightarrow>
                advanced_loop config respond ta clock (Suc k) (queryCount + batchSize)
                  (batches @ [fst launched])
                  (foldl (\<lambda>s c. executeQuery (fst c) (snd c) (respond (fst c)) s)
                     stats (fst launched)))
      else Some (batches, Inr stats))"

declare advanced_loop.simps [code]

text \<open>
  \<^verbatim>\<open>runLoadTest()\<close> of the advanced script. Printing \<^verbatim>\<open>pattern.name\<close> throws when
  the pattern lookup gave \<^verbatim>\<open>undefined\<close>.
\<close>

definition runLoadTest_advanced ::
  "AdvancedConfig \<Rightarrow> (int \<Rightarrow> QueryResponse) \<Rightarrow> int \<Rightarrow> (nat \<Rightarrow> int) \<Rightarrow> int
     \<Rightarrow> (Call list list \<times> (js_error + TestStats)) option" where
  "runLoadTest_advanced config respond ta clock tb =
     (if js_get TEST_PATTERNS_cli (adv_pattern config) = UndefinedValue
      then Some ([], Inl TypeError)
      else
        (case advanced_loop config respond ta clock 0 0 [] (createStats\<lparr>startTime := ta\<rparr>) of
           None \<Rightarrow> None
         | Some (batches, Inl e) \<Rightarrow> Some (batches, Inl e)
         | Some (batches, Inr stats) \<Rightarrow> Some (batches, Inr (stats\<lparr>endTime := tb\<rparr>))))"

section \<open>Notions used in the statements\<close>

text \<open>The five bucket counters by name, and their sum.\<close>

datatype Bucket = B_0_50 | B_50_100 | B_100_200 | B_200_500 | B_500_plus

fun bucket_count :: "Bucket \<Rightarrow> LatencyBuckets \<Rightarrow> nat" where
  "bucket_count B_0_50 b = b_0_50ms b"
| "bucket_count B_50_100 b = b_50_100ms b"
| "bucket_count B_100_200 b = b_100_200ms b"
| "bucket_count B_200_500 b = b_200_500ms b"
| "bucket_count B_500_plus b = b_500ms_plus b"

definition bucket_total :: "LatencyBuckets \<Rightarrow> nat" where
  "bucket_total b = b_0_50ms b + b_50_100ms b + b_100_200ms b + b_200_500ms b + b_500ms_plus b"

text \<open>
  The bucket the specification assigns to a latency, by its half-open boundaries
  \<open>[0,50)\<close>, \<open>[50,100)\<close>, \<open>[100,200)\<close>, \<open>[200,500)\<close>, \<open>[500,\<infinity>)\<close>.
\<close>

definition spec_bucket :: "int \<Rightarrow> Bucket option" where
  "spec_bucket lat =
     (if 0 \<le> lat \<and> lat < 50 then Some B_0_50
      else if 50 \<le> lat \<and> lat < 100 then Some B_50_100
      else if 100 \<le> lat \<and> lat < 200 then Some B_100_200
      else if 200 \<le> lat \<and> lat < 500 then Some B_200_500
      else if 500 \<le> lat then Some B_500_plus
      else None)"

text \<open>
  Statistics after successful calls with the given latencies, recorded in the
  order given.
\<close>

definition latency_samples :: "int list \<Rightarrow> TestStats" where
  "latency_samples ls =
     record_calls False (map (\<lambda>l. (1, Some 10, Resolved l 300)) ls)"

text \<open>
  A report of one strategy with the given average latency and rate of queries per
  second; the other fields hold sample values.
\<close>

definition strategy_results :: "rat \<Rightarrow> rat \<Rightarrow> StrategyResults" where
  "strategy_results avg qps =
     \<lparr>res_duration = Fin 5, res_qps = Fin qps, res_avgLatency = Fin avg,
      res_medianLatency = Fin avg, res_p95Latency = Fin avg, res_p99Latency = Fin avg,
      res_minLatency = Fin avg, res_maxLatency = Fin avg, res_totalMB = Fin 1\<rparr>"


text \<open>The limit a resolver gives to a query number when it does not throw.\<close>

definition limit_of :: "(int \<Rightarrow> js_error + int option) \<Rightarrow> int \<Rightarrow> int option" where
  "limit_of resolve qn = (case resolve qn of Inr l \<Rightarrow> l | Inl e \<Rightarrow> None)"

text \<open>A number that is zero, positive or \<open>+\<infinity>\<close>.\<close>

fun js_nonneg :: "jsnum \<Rightarrow> bool" where
  "js_nonneg (Fin r) = (0 \<le> r)"
| "js_nonneg PosInfinity = True"
| "js_nonneg NegInfinity = False"
| "js_nonneg NaN = False"

text \<open>
  The percentage that the summary of the comparison computes from two values and a
  base: \<^verbatim>\<open>((x - y) / base * 100).toFixed(1)\<close>.
\<close>

definition improvement :: "rat \<Rightarrow> rat \<Rightarrow> rat \<Rightarrow> jsnum" where
  "improvement x y base =
     toFixed 1 (js_mul (js_div (js_sub (Fin x) (Fin y)) (Fin base)) (Fin 100))"

section \<open>Rounding to doubles\<close>

lemma numerator_nonneg: "0 \<le> a \<Longrightarrow> 0 \<le> fst (quotient_of a)"
proof -
  assume a: "0 \<le> a"
  obtain p q where pq: "quotient_of a = (p, q)" by (cases "quotient_of a")
  then have q: "0 < q" by (rule quotient_of_denom_pos)
  from pq have "a = of_int p / of_int q" by (rule quotient_of_div)
  with a q have "0 \<le> p" by (simp add: zero_le_divide_iff)
  with pq show ?thesis by simp
qed

lemma round_positive_nonneg: "0 \<le> a \<Longrightarrow> 0 \<le> round_positive a"
proof -
  assume a: "0 \<le> a"
  define e where "e = max (binade a - 52) (- 1074)"
  define n where "n = fst (quotient_of a) * 2 ^ nat (- e)"
  define dn where "dn = snd (quotient_of a) * 2 ^ nat e"
  define m where "m = (if 2 * (n mod dn) < dn then n div dn else if dn < 2 * (n mod dn)
      then n div dn + 1 else if even (n div dn) then n div dn else n div dn + 1)"
  have "0 \<le> n" using numerator_nonneg [OF a] by (simp add: n_def)
  moreover have "0 < dn" using quotient_of_denom_pos' [of a] by (simp add: dn_def)
  ultimately have "0 \<le> n div dn" by (simp add: pos_imp_zdiv_nonneg_iff)
  then have "0 \<le> m" by (simp add: m_def)
  then have "0 \<le> m * 2 ^ nat e" by simp
  moreover have "(0 :: int) < 2 ^ nat (- e)" by simp
  ultimately have "0 \<le> Fract (m * 2 ^ nat e) (2 ^ nat (- e))"
    by (simp only: zero_le_Fract_iff)
  moreover have "round_positive a = Fract (m * 2 ^ nat e) (2 ^ nat (- e))"
    unfolding round_positive_def Let_def m_def n_def dn_def e_def by (rule refl)
  ultimately show ?thesis by (simp only:)
qed

lemma double_of_zero: "double_of 0 = 0"
  by (simp add: double_of_def)

lemma double_of_neg: "double_of (- x) = - double_of x"
proof -
  consider "x < 0" | "x = 0" | "0 < x" by linarith
  then show ?thesis
    by cases (simp_all add: double_of_def)
qed

lemma double_of_nonneg: "0 \<le> x \<Longrightarrow> 0 \<le> double_of x"
  using round_positive_nonneg [of x] by (simp add: double_of_def)

lemma to_double_zero: "to_double 0 = Fin 0"
  by (simp add: to_double_def double_of_zero)

lemma to_double_neg: "to_double (- x) = js_neg (to_double x)"
  by (simp add: to_double_def double_of_neg Let_def)

lemma to_double_nonneg: "0 \<le> x \<Longrightarrow> js_nonneg (to_double x)"
  using double_of_nonneg [of x] by (simp add: to_double_def Let_def)

lemma parseFloat_neg: "parseFloat (js_neg y) = js_neg (parseFloat y)"
  by (cases y) (simp_all add: to_double_neg)

lemma parseFloat_nonneg: "js_nonneg y \<Longrightarrow> js_nonneg (parseFloat y)"
  by (cases y) (simp_all add: to_double_nonneg)

lemma not_greater_neg: "js_nonneg y \<Longrightarrow> \<not> js_greater (js_neg y) (Fin 0)"
  by (cases y) (simp_all add: js_greater_def)

lemma js_abs_neg: "js_nonneg y \<Longrightarrow> js_abs (js_neg y) = y"
  by (cases y) simp_all

lemma js_sub_fin: "js_sub (Fin x) (Fin y) = to_double (x - y)"
  by (simp add: js_sub_def)

lemma js_div_neg: "0 < b \<Longrightarrow> js_div (js_neg y) (Fin b) = js_neg (js_div y (Fin b))"
proof (cases y)
  case (Fin r)
  assume "0 < b"
  then have "js_div (js_neg y) (Fin b) = to_double (- (r / b))" using Fin by simp
  also have "\<dots> = js_neg (to_double (r / b))" by (rule to_double_neg)
  also have "\<dots> = js_neg (js_div y (Fin b))" using Fin \<open>0 < b\<close> by simp
  finally show ?thesis .
qed (simp_all add: signed_infinity_def)

lemma js_mul_neg: "0 < c \<Longrightarrow> js_mul (js_neg y) (Fin c) = js_neg (js_mul y (Fin c))"
proof (cases y)
  case (Fin r)
  have "js_mul (js_neg y) (Fin c) = to_double (- (r * c))" using Fin by simp
  also have "\<dots> = js_neg (to_double (r * c))" by (rule to_double_neg)
  also have "\<dots> = js_neg (js_mul y (Fin c))" using Fin by simp
  finally show ?thesis .
qed (simp_all add: signed_infinity_def)

lemma js_div_nonneg: "0 < b \<Longrightarrow> js_nonneg y \<Longrightarrow> js_nonneg (js_div y (Fin b))"
proof (cases y)
  case (Fin r)
  assume "0 < b" and "js_nonneg y"
  with Fin have "0 \<le> r / b" by simp
  then have "js_nonneg (to_double (r / b))" by (rule to_double_nonneg)
  with Fin \<open>0 < b\<close> show ?thesis by simp
qed (simp_all add: signed_infinity_def)

lemma js_mul_nonneg: "0 < c \<Longrightarrow> js_nonneg y \<Longrightarrow> js_nonneg (js_mul y (Fin c))"
proof (cases y)
  case (Fin r)
  assume "0 < c" and "js_nonneg y"
  with Fin have "0 \<le> r * c" by simp
  then have "js_nonneg (to_double (r * c))" by (rule to_double_nonneg)
  with Fin show ?thesis by simp
qed (simp_all add: signed_infinity_def)

section \<open>The accumulator: invariants and frame\<close>

lemma executors_agree: "executeQueryWithSharedClient = executeQueryWithNewClient"
  by (intro ext) (simp add: executeQueryWithSharedClient_def executeQueryWithNewClient_def)

lemma record_outcome_new:
  "record_outcome sh s c = executeQueryWithNewClient (fst c) (fst (snd c)) (snd (snd c)) s"
  by (simp add: record_outcome_def executors_agree)

lemma record_calls_snoc:
  "record_calls sh (cs @ [c]) = record_outcome sh (record_calls sh cs) c"
  by (simp add: record_calls_def)

lemma record_calls_Nil: "record_calls sh [] = createStats"
  by (simp add: record_calls_def)

lemma bucket_total_count: "bucket_total (count_in_bucket lat b) = bucket_total b + 1"
  by (simp add: bucket_total_def count_in_bucket_def)

lemma step_counts:
  "successfulQueries s + failedQueries s = totalQueries s \<Longrightarrow>
   successfulQueries (record_outcome sh s c) + failedQueries (record_outcome sh s c)
     = totalQueries (record_outcome sh s c)"
  by (cases "snd (snd c)") (simp_all add: record_outcome_new executeQueryWithNewClient_def)

lemma step_buckets:
  "bucket_total (latencyBuckets s) = successfulQueries s \<Longrightarrow>
   bucket_total (latencyBuckets (record_outcome sh s c)) = successfulQueries (record_outcome sh s c)"
  by (cases "snd (snd c)")
     (simp_all add: record_outcome_new executeQueryWithNewClient_def bucket_total_count)

lemma calls_counts:
  "successfulQueries (record_calls sh cs) + failedQueries (record_calls sh cs)
     = totalQueries (record_calls sh cs)"
proof (induction cs rule: rev_induct)
  case Nil
  show ?case by (simp add: record_calls_Nil createStats_def)
next
  case (snoc c cs)
  then show ?case by (simp only: record_calls_snoc step_counts)
qed

lemma calls_buckets:
  "bucket_total (latencyBuckets (record_calls sh cs)) = successfulQueries (record_calls sh cs)"
proof (induction cs rule: rev_induct)
  case Nil
  show ?case by (simp add: record_calls_Nil createStats_def bucket_total_def)
next
  case (snoc c cs)
  then show ?case by (simp only: record_calls_snoc step_buckets)
qed

lemma bucket_choice:
  assumes "0 \<le> lat"
  shows "\<exists>k. spec_bucket lat = Some k \<and>
     (\<forall>k'. bucket_count k' (latencyBuckets (record_outcome sh s (qn, lmt, Resolved lat b)))
        = bucket_count k' (latencyBuckets s) + (if k' = k then 1 else 0))"
proof -
  have lb: "latencyBuckets (record_outcome sh s (qn, lmt, Resolved lat b))
      = count_in_bucket lat (latencyBuckets s)"
    by (simp add: record_outcome_new executeQueryWithNewClient_def)
  consider "lat < 50" | "50 \<le> lat" "lat < 100" | "100 \<le> lat" "lat < 200"
    | "200 \<le> lat" "lat < 500" | "500 \<le> lat"
    by linarith
  then show ?thesis
  proof cases
    case 1
    with assms have "spec_bucket lat = Some B_0_50" by (simp add: spec_bucket_def)
    moreover have "\<forall>k'. bucket_count k' (count_in_bucket lat (latencyBuckets s))
        = bucket_count k' (latencyBuckets s) + (if k' = B_0_50 then 1 else 0)"
    proof
      fix k' show "bucket_count k' (count_in_bucket lat (latencyBuckets s))
        = bucket_count k' (latencyBuckets s) + (if k' = B_0_50 then 1 else 0)"
        using 1 by (cases k') (simp_all add: count_in_bucket_def)
    qed
    ultimately show ?thesis unfolding lb by blast
  next
    case 2
    then have "spec_bucket lat = Some B_50_100" by (simp add: spec_bucket_def)
    moreover have "\<forall>k'. bucket_count k' (count_in_bucket lat (latencyBuckets s))
        = bucket_count k' (latencyBuckets s) + (if k' = B_50_100 then 1 else 0)"
    proof
      fix k' show "bucket_count k' (count_in_bucket lat (latencyBuckets s))
        = bucket_count k' (latencyBuckets s) + (if k' = B_50_100 then 1 else 0)"
        using 2 by (cases k') (simp_all add: count_in_bucket_def)
    qed
    ultimately show ?thesis unfolding lb by blast
  next
    case 3
    then have "spec_bucket lat = Some B_100_200" by (simp add: spec_bucket_def)
    moreover have "\<forall>k'. bucket_count k' (count_in_bucket lat (latencyBuckets s))
        = bucket_count k' (latencyBuckets s) + (if k' = B_100_200 then 1 else 0)"
    proof
      fix k' show "bucket_count k' (count_in_bucket lat (latencyBuckets s))
        = bucket_count k' (latencyBuckets s) + (if k' = B_100_200 then 1 else 0)"
        using 3 by (cases k') (simp_all add: count_in_bucket_def)
    qed
    ultimately show ?thesis unfolding lb by blast
  next
    case 4
    then have "spec_bucket lat = Some B_200_500" by (simp add: spec_bucket_def)
    moreover have "\<forall>k'. bucket_count k' (count_in_bucket lat (latencyBuckets s))
        = bucket_count k' (latencyBuckets s) + (if k' = B_200_500 then 1 else 0)"
    proof
      fix k' show "bucket_count k' (count_in_bucket lat (latencyBuckets s))
        = bucket_count k' (latencyBuckets s) + (if k' = B_200_500 then 1 else 0)"
        using 4 by (cases k') (simp_all add: count_in_bucket_def)
    qed
    ultimately show ?thesis unfolding lb by blast
  next
    case 5
    then have "spec_bucket lat = Some B_500_plus" by (simp add: spec_bucket_def)
    moreover have "\<forall>k'. bucket_count k' (count_in_bucket lat (latencyBuckets s))
        = bucket_count k' (latencyBuckets s) + (if k' = B_500_plus then 1 else 0)"
    proof
      fix k' show "bucket_count k' (count_in_bucket lat (latencyBuckets s))
        = bucket_count k' (latencyBuckets s) + (if k' = B_500_plus then 1 else 0)"
        using 5 by (cases k') (simp_all add: count_in_bucket_def)
    qed
    ultimately show ?thesis unfolding lb by blast
  qed
qed

text \<open>
  C7. After any sequence of recorded outcomes the successes and failures add up to
  the total and the five bucket counters add up to the successes; recording a
  success of latency \<open>lat \<ge> 0\<close> adds one to the counter of the bucket whose
  half-open interval holds \<open>lat\<close> and leaves the other four as they were.
\<close>

theorem accumulator_invariants:
  "successfulQueries (record_calls sh cs) + failedQueries (record_calls sh cs)
     = totalQueries (record_calls sh cs)
   \<and> bucket_total (latencyBuckets (record_calls sh cs)) = successfulQueries (record_calls sh cs)
   \<and> (0 \<le> lat \<longrightarrow>
        (\<exists>k. spec_bucket lat = Some k \<and>
          (\<forall>k'. bucket_count k' (latencyBuckets (record_outcome sh s (qn, lmt, Resolved lat b)))
             = bucket_count k' (latencyBuckets s) + (if k' = k then 1 else 0))))"
  using calls_counts calls_buckets bucket_choice by blast

theorem accumulator_invariants_witness:
  "successfulQueries (record_calls True [(1, Some 10, Resolved 40 300), (2, Some 10, Rejected ''rate limited''), (3, Some 10, Resolved 75 300)])
     + failedQueries (record_calls True [(1, Some 10, Resolved 40 300), (2, Some 10, Rejected ''rate limited''), (3, Some 10, Resolved 75 300)])
     = 3
   \<and> bucket_total (latencyBuckets (record_calls True [(1, Some 10, Resolved 40 300), (2, Some 10, Rejected ''rate limited''), (3, Some 10, Resolved 75 300)])) = 2
   \<and> (0::int) \<le> 75
   \<and> spec_bucket 75 = Some B_50_100
   \<and> (\<forall>k'. bucket_count k' (latencyBuckets (record_outcome True createStats (1, Some 10, Resolved 75 300)))
             = bucket_count k' (latencyBuckets createStats) + (if k' = B_50_100 then 1 else 0))"
proof -
  let ?cs = "[(1, Some 10, Resolved 40 300), (2, Some 10, Rejected ''rate limited''), (3, Some 10, Resolved 75 300)]"
  have tq: "totalQueries (record_calls True ?cs) = 3" by code_simp
  have sq: "successfulQueries (record_calls True ?cs) = 2" by code_simp
  have sb: "spec_bucket 75 = Some B_50_100" by (simp add: spec_bucket_def)
  have h: "(0::int) \<le> 75" by simp
  from accumulator_invariants [of True ?cs 75 createStats 1 "Some 10" 300] h sb tq sq
  show ?thesis by simp
qed

text \<open>
  C10. Recording a failure adds one to \<open>totalQueries\<close> and \<open>failedQueries\<close> and
  appends to \<open>errors\<close>; the success count, latency sum, minimum, maximum, byte
  total, bucket counters and retained samples stay as they were, with either
  executor.
\<close>

theorem failure_frame:
  "totalQueries (record_outcome sh s (qn, lmt, Rejected msg)) = totalQueries s + 1
   \<and> failedQueries (record_outcome sh s (qn, lmt, Rejected msg)) = failedQueries s + 1
   \<and> errors (record_outcome sh s (qn, lmt, Rejected msg)) = errors s @ [(qn, msg)]
   \<and> successfulQueries (record_outcome sh s (qn, lmt, Rejected msg)) = successfulQueries s
   \<and> totalLatency (record_outcome sh s (qn, lmt, Rejected msg)) = totalLatency s
   \<and> minLatency (record_outcome sh s (qn, lmt, Rejected msg)) = minLatency s
   \<and> maxLatency (record_outcome sh s (qn, lmt, Rejected msg)) = maxLatency s
   \<and> totalBytesTransferred (record_outcome sh s (qn, lmt, Rejected msg)) = totalBytesTransferred s
   \<and> latencyBuckets (record_outcome sh s (qn, lmt, Rejected msg)) = latencyBuckets s
   \<and> queries (record_outcome sh s (qn, lmt, Rejected msg)) = queries s
   \<and> startTime (record_outcome sh s (qn, lmt, Rejected msg)) = startTime s
   \<and> endTime (record_outcome sh s (qn, lmt, Rejected msg)) = endTime s"
  by (simp add: record_outcome_new executeQueryWithNewClient_def)


section \<open>Median and percentiles\<close>

lemma metrics_median:
  "rep_medianLatency (calculateMetrics s) =
     (if length (sorted_latencies s) > 0
      then js_index (sorted_latencies s) (int (length (sorted_latencies s) div 2)) else Some 0)"
  by (simp add: calculateMetrics_def Let_def)

lemma metrics_successRate:
  "rep_successRate (calculateMetrics s) =
     js_mul (js_div (Fin (of_nat (successfulQueries s))) (Fin (of_nat (totalQueries s)))) (Fin 100)"
  by (simp add: calculateMetrics_def Let_def)

lemma metrics_qps:
  "rep_qps (calculateMetrics s) =
     js_div (Fin (of_nat (totalQueries s)))
       (Fin (double_of (of_int (endTime s - startTime s) / 1000)))"
  by (simp add: calculateMetrics_def Let_def)

lemma toFixed0_int: "toFixed_rat 0 (of_int v) = of_int v"
proof (cases "v < 0")
  case True
  have "\<lfloor>(of_int (- v) :: rat) + 1 / 2\<rfloor> = - v"
    by (rule floor_unique) simp_all
  with True show ?thesis by (simp add: toFixed_rat_def)
next
  case False
  have "\<lfloor>(of_int v :: rat) + 1 / 2\<rfloor> = v"
    by (rule floor_unique) simp_all
  with False show ?thesis by (simp add: toFixed_rat_def)
qed

lemma floor_half_nonneg: "\<lfloor>(of_int k :: rat) / 2 + 1 / 2\<rfloor> = (k + 1) div 2"
proof -
  have "(of_int k :: rat) / 2 + 1 / 2 = of_int (k + 1) / of_int 2" by (simp add: add_divide_distrib)
  then show ?thesis by (simp only: floor_divide_of_int_eq)
qed

lemma toFixed0_half:
  "toFixed_rat 0 (of_int k / 2) =
     of_int k / 2 + (if even k then 0 else if 0 \<le> k then 1 / 2 else - (1 / 2))"
proof (cases "k < 0")
  case False
  then have "toFixed_rat 0 (of_int k / 2) = of_int ((k + 1) div 2)"
    using floor_half_nonneg [of k] by (simp add: toFixed_rat_def)
  also have "\<dots> = of_int k / 2 + (if even k then 0 else 1 / 2)"
  proof (cases "even k")
    case True
    then obtain j where "k = 2 * j" by (auto elim: evenE)
    then show ?thesis by simp
  next
    case odd: False
    then obtain j where "k = 2 * j + 1" by (auto elim: oddE)
    then show ?thesis by (simp add: add_divide_distrib)
  qed
  finally show ?thesis using False by simp
next
  case True
  then have "toFixed_rat 0 (of_int k / 2) = - of_int ((- k + 1) div 2)"
    using floor_half_nonneg [of "- k"] by (simp add: toFixed_rat_def)
  also have "\<dots> = of_int k / 2 + (if even k then 0 else - (1 / 2))"
  proof (cases "even k")
    case True
    then obtain j where "k = 2 * j" by (auto elim: evenE)
    then have "(- k + 1) div 2 = - j" by presburger
    then show ?thesis using \<open>k = 2 * j\<close> by simp
  next
    case odd: False
    then obtain j where "k = 2 * j + 1" by (auto elim: oddE)
    then have "(- k + 1) div 2 = - j" by presburger
    then show ?thesis using \<open>k = 2 * j + 1\<close> by (simp add: add_divide_distrib)
  qed
  finally show ?thesis using True by simp
qed

lemma length_sorted_latencies: "length (sorted_latencies s) = length (queries s)"
  by (simp add: sorted_latencies_def)

text \<open>
  C1, as amended. For a non-empty sample list of even length,
  \<open>calculateMedianLatency\<close> of the comparison script gives the mean of the two
  central elements of the sorted latencies rounded to an integer: the mean itself
  when the two add up to an even number, and otherwise the mean moved by one half
  away from zero. For odd length it gives the central element, and so does
  \<open>calculateMetrics\<close> of \<open>route.ts\<close>.
\<close>

theorem median_rounded:
  assumes "queries s \<noteq> []"
  shows "(even (length (queries s)) \<longrightarrow>
           calculateMedianLatency s =
             (of_int (sort (map latency (queries s)) ! (length (queries s) div 2 - 1))
              + of_int (sort (map latency (queries s)) ! (length (queries s) div 2))) / 2
             + (if even (sort (map latency (queries s)) ! (length (queries s) div 2 - 1)
                      + sort (map latency (queries s)) ! (length (queries s) div 2)) then 0
                else if 0 \<le> sort (map latency (queries s)) ! (length (queries s) div 2 - 1)
                      + sort (map latency (queries s)) ! (length (queries s) div 2) then 1 / 2
                else - (1 / 2)))
       \<and> (odd (length (queries s)) \<longrightarrow>
           calculateMedianLatency s
             = of_int (sort (map latency (queries s)) ! (length (queries s) div 2))
           \<and> rep_medianLatency (calculateMetrics s)
             = Some (sort (map latency (queries s)) ! (length (queries s) div 2)))"
proof (intro conjI impI)
  let ?ls = "sort (map latency (queries s))"
  let ?n = "length (queries s)"
  assume ev: "even ?n"
  have "calculateMedianLatency s
      = toFixed_rat 0 (of_int (?ls ! (?n div 2 - 1) + ?ls ! (?n div 2)) / 2)"
    using assms ev by (simp add: calculateMedianLatency_def sorted_latencies_def Let_def)
  then show "calculateMedianLatency s =
             (of_int (?ls ! (?n div 2 - 1)) + of_int (?ls ! (?n div 2))) / 2
             + (if even (?ls ! (?n div 2 - 1) + ?ls ! (?n div 2)) then 0
                else if 0 \<le> ?ls ! (?n div 2 - 1) + ?ls ! (?n div 2) then 1 / 2
                else - (1 / 2))"
    using toFixed0_half [of "?ls ! (?n div 2 - 1) + ?ls ! (?n div 2)"] by simp
next
  let ?ls = "sort (map latency (queries s))"
  let ?n = "length (queries s)"
  assume od: "odd ?n"
  then have "?n mod 2 \<noteq> 0" by presburger
  then show "calculateMedianLatency s = of_int (?ls ! (?n div 2))"
    using assms by (simp add: calculateMedianLatency_def sorted_latencies_def Let_def toFixed0_int)
next
  let ?ls = "sort (map latency (queries s))"
  let ?n = "length (queries s)"
  assume od: "odd ?n"
  have lt: "?n div 2 < ?n" using assms by simp
  have "length ?ls = ?n" by simp
  with assms have ne: "?ls \<noteq> []" by (metis length_0_conv)
  from lt ne show "rep_medianLatency (calculateMetrics s) = Some (?ls ! (?n div 2))"
    by (simp add: calculateMetrics_def sorted_latencies_def Let_def js_index_def)
qed

theorem median_rounded_witness:
  "queries (latency_samples [40, 10, 30, 20]) \<noteq> []
   \<and> calculateMedianLatency (latency_samples [40, 10, 30, 20]) = 25
   \<and> queries (latency_samples [30, 10, 20]) \<noteq> []
   \<and> calculateMedianLatency (latency_samples [30, 10, 20]) = 20
   \<and> rep_medianLatency (calculateMetrics (latency_samples [30, 10, 20])) = Some 20
   \<and> calculateMedianLatency (latency_samples [21, 10]) = 16"
proof -
  have q4: "map latency (queries (latency_samples [40, 10, 30, 20])) = [40, 10, 30, 20]"
    by code_simp
  have q3: "map latency (queries (latency_samples [30, 10, 20])) = [30, 10, 20]"
    by code_simp
  have q2: "map latency (queries (latency_samples [21, 10])) = [21, 10]"
    by code_simp
  have n4: "queries (latency_samples [40, 10, 30, 20]) \<noteq> []" using q4 by auto
  have n3: "queries (latency_samples [30, 10, 20]) \<noteq> []" using q3 by auto
  have n2: "queries (latency_samples [21, 10]) \<noteq> []" using q2 by auto
  have l4: "length (queries (latency_samples [40, 10, 30, 20])) = 4"
    using arg_cong [OF q4, of length] by simp
  have l3: "length (queries (latency_samples [30, 10, 20])) = 3"
    using arg_cong [OF q3, of length] by simp
  have l2: "length (queries (latency_samples [21, 10])) = 2"
    using arg_cong [OF q2, of length] by simp
  from median_rounded [OF n4] median_rounded [OF n3] median_rounded [OF n2] n4 n3
  show ?thesis
    by (simp add: q4 q3 q2 l4 l3 l2)
qed

text \<open>
  C1 as stated fails: the comparison script reports \<open>16\<close> for the latencies
  \<open>10, 21\<close>, whose mean is \<open>31/2\<close>, and \<open>route.ts\<close> reports \<open>30\<close> for
  \<open>10, 20, 30, 40\<close>, the upper of the two central elements.
\<close>

theorem median_counterexample:
  "calculateMedianLatency (latency_samples [21, 10]) = 16
   \<and> (16 :: rat) \<noteq> (10 + 21) / 2
   \<and> rep_medianLatency (calculateMetrics (latency_samples [10, 20, 30, 40])) = Some 30
   \<and> (30 :: rat) \<noteq> (20 + 30) / 2"
proof -
  have m: "calculateMedianLatency (latency_samples [21, 10]) = 16" by code_simp
  have l: "sorted_latencies (latency_samples [10, 20, 30, 40]) = [10, 20, 30, 40]"
    by code_simp
  have r: "rep_medianLatency (calculateMetrics (latency_samples [10, 20, 30, 40])) = Some 30"
    unfolding metrics_median l by (simp add: js_index_def)
  from m r show ?thesis by simp
qed

lemma rank_bounds:
  assumes "0 < n" and "P = 95 \<or> P = 99"
  shows "0 \<le> \<lceil>(of_int P / 100 :: rat) * of_nat n\<rceil> - 1"
    and "\<lceil>(of_int P / 100 :: rat) * of_nat n\<rceil> - 1 < int n"
proof -
  have pos: "(0 :: rat) < of_int P / 100 * of_nat n" using assms by auto
  then have "0 < \<lceil>(of_int P / 100 :: rat) * of_nat n\<rceil>" by (simp only: zero_less_ceiling)
  then show "0 \<le> \<lceil>(of_int P / 100 :: rat) * of_nat n\<rceil> - 1" by simp
  have "(of_int P / 100 :: rat) \<le> 1" using assms by auto
  then have "(of_int P / 100 :: rat) * of_nat n \<le> 1 * of_nat n"
    by (intro mult_right_mono) simp_all
  then have "(of_int P / 100 :: rat) * of_nat n \<le> of_int (int n)" by simp
  then have "\<lceil>(of_int P / 100 :: rat) * of_nat n\<rceil> \<le> int n" by (rule ceiling_le)
  then show "\<lceil>(of_int P / 100 :: rat) * of_nat n\<rceil> - 1 < int n" by simp
qed

text \<open>
  C2. For a non-empty sample list of length \<open>n\<close> and \<open>P\<close> either \<open>95\<close> or
  \<open>99\<close>, the index \<open>\<lceil>P/100 * n\<rceil> - 1\<close> lies between \<open>0\<close> and \<open>n - 1\<close>, and
  both \<open>calculatePercentile\<close> of the comparison script and the percentile fields
  of \<open>calculateMetrics\<close> give the element of the sorted latencies at that index.
\<close>

theorem percentile_nearest_rank:
  assumes "queries s \<noteq> []" and "P = 95 \<or> P = 99"
  shows "0 \<le> \<lceil>(of_int P / 100 :: rat) * of_nat (length (queries s))\<rceil> - 1
    \<and> \<lceil>(of_int P / 100 :: rat) * of_nat (length (queries s))\<rceil> - 1
         \<le> int (length (queries s)) - 1
    \<and> calculatePercentile s (of_int P)
         = of_int (sort (map latency (queries s))
             ! nat (\<lceil>(of_int P / 100 :: rat) * of_nat (length (queries s))\<rceil> - 1))
    \<and> (P = 95 \<longrightarrow> rep_p95Latency (calculateMetrics s)
         = Some (sort (map latency (queries s))
             ! nat (\<lceil>(of_int P / 100 :: rat) * of_nat (length (queries s))\<rceil> - 1)))
    \<and> (P = 99 \<longrightarrow> rep_p99Latency (calculateMetrics s)
         = Some (sort (map latency (queries s))
             ! nat (\<lceil>(of_int P / 100 :: rat) * of_nat (length (queries s))\<rceil> - 1)))"
proof -
  let ?ls = "sort (map latency (queries s))"
  let ?n = "length (queries s)"
  let ?i = "\<lceil>(of_int P / 100 :: rat) * of_nat ?n\<rceil> - 1"
  from assms(1) have n: "0 < ?n" by simp
  note lo = rank_bounds(1) [OF n assms(2)]
  note hi = rank_bounds(2) [OF n assms(2)]
  have len: "length ?ls = ?n" by simp
  with assms(1) have ne: "?ls \<noteq> []" by (metis length_0_conv)
  have idx: "js_index ?ls ?i = Some (?ls ! nat ?i)"
    using lo hi by (simp add: js_index_def)
  have cli: "calculatePercentile s (of_int P) = of_int (?ls ! nat ?i)"
    using assms(1) idx by (simp add: calculatePercentile_def sorted_latencies_def Let_def toFixed0_int)
  have p95: "P = 95 \<longrightarrow> rep_p95Latency (calculateMetrics s) = Some (?ls ! nat ?i)"
    using ne idx by (auto simp add: calculateMetrics_def sorted_latencies_def Let_def)
  have p99: "P = 99 \<longrightarrow> rep_p99Latency (calculateMetrics s) = Some (?ls ! nat ?i)"
    using ne idx by (auto simp add: calculateMetrics_def sorted_latencies_def Let_def)
  from lo hi cli p95 p99 show ?thesis by simp
qed

theorem percentile_nearest_rank_witness:
  "queries (latency_samples [20, 19, 18, 17, 16, 15, 14, 13, 12, 11, 10, 9, 8, 7, 6, 5, 4, 3, 2, 1]) \<noteq> []
   \<and> ((95::int) = 95 \<or> (95::int) = 99) \<and> ((99::int) = 95 \<or> (99::int) = 99)
   \<and> \<lceil>(of_int 95 / 100 :: rat) * of_nat 20\<rceil> - 1 = 18
   \<and> \<lceil>(of_int 99 / 100 :: rat) * of_nat 20\<rceil> - 1 = 19
   \<and> calculatePercentile (latency_samples [20, 19, 18, 17, 16, 15, 14, 13, 12, 11, 10, 9, 8, 7, 6, 5, 4, 3, 2, 1]) 95 = 19
   \<and> calculatePercentile (latency_samples [20, 19, 18, 17, 16, 15, 14, 13, 12, 11, 10, 9, 8, 7, 6, 5, 4, 3, 2, 1]) 99 = 20
   \<and> rep_p95Latency (calculateMetrics (latency_samples [20, 19, 18, 17, 16, 15, 14, 13, 12, 11, 10, 9, 8, 7, 6, 5, 4, 3, 2, 1])) = Some 19
   \<and> rep_p99Latency (calculateMetrics (latency_samples [20, 19, 18, 17, 16, 15, 14, 13, 12, 11, 10, 9, 8, 7, 6, 5, 4, 3, 2, 1])) = Some 20"
proof -
  let ?s = "latency_samples [20, 19, 18, 17, 16, 15, 14, 13, 12, 11, 10, 9, 8, 7, 6, 5, 4, 3, 2, 1]"
  have q: "map latency (queries ?s) = [20, 19, 18, 17, 16, 15, 14, 13, 12, 11, 10, 9, 8, 7, 6, 5, 4, 3, 2, 1]"
    by code_simp
  have srt: "sort (map latency (queries ?s)) = [1, 2, 3, 4, 5, 6, 7, 8, 9, 10, 11, 12, 13, 14, 15, 16, 17, 18, 19, 20]"
    unfolding q by code_simp
  have ne: "queries ?s \<noteq> []" using q by auto
  have len: "length (queries ?s) = 20"
    using arg_cong [OF q, of length] by simp
  have c95: "\<lceil>(of_int 95 / 100 :: rat) * of_nat 20\<rceil> - 1 = 18" by simp
  have c99: "\<lceil>(of_int 99 / 100 :: rat) * of_nat 20\<rceil> - 1 = 19" by code_simp
  have e18: "[1, 2, 3, 4, 5, 6, 7, 8, 9, 10, 11, 12, 13, 14, 15, 16, 17, 18, 19, 20 :: int] ! 18 = 19"
    by code_simp
  have e19: "[1, 2, 3, 4, 5, 6, 7, 8, 9, 10, 11, 12, 13, 14, 15, 16, 17, 18, 19, 20 :: int] ! 19 = 20"
    by code_simp
  have a: "(95::int) = 95 \<or> (95::int) = 99" by simp
  have b: "(99::int) = 95 \<or> (99::int) = 99" by simp
  from percentile_nearest_rank [OF ne a] have r95:
    "calculatePercentile ?s 95 = 19 \<and> rep_p95Latency (calculateMetrics ?s) = Some 19"
    unfolding len srt using c95 e18 by simp
  from percentile_nearest_rank [OF ne b] have r99:
    "calculatePercentile ?s 99 = 20 \<and> rep_p99Latency (calculateMetrics ?s) = Some 20"
    unfolding len srt using c99 e19 by simp
  from ne c95 c99 r95 r99 show ?thesis by simp
qed


section \<open>The verdict of the comparison\<close>

lemma floor_half: "\<lfloor>(1 / 2 :: rat)\<rfloor> = 0"
  by (rule floor_unique) simp_all

lemma toFixed_zero: "toFixed_rat d 0 = 0"
  by (simp add: toFixed_rat_def floor_half)

lemma toFixed_neg: "toFixed_rat d (- x) = - toFixed_rat d x"
proof -
  consider "x < 0" | "x = 0" | "0 < x" by linarith
  then show ?thesis
  proof cases
    case 1 then show ?thesis by (simp add: toFixed_rat_def)
  next
    case 2 then show ?thesis by (simp add: toFixed_zero)
  next
    case 3 then show ?thesis by (simp add: toFixed_rat_def)
  qed
qed

lemma toFixed_rat_nonneg: "0 \<le> x \<Longrightarrow> 0 \<le> toFixed_rat d x"
proof -
  assume x: "0 \<le> x"
  then have "0 \<le> x * 10 ^ d" by simp
  then have "0 \<le> x * 10 ^ d + 1 / 2" by linarith
  then have "0 \<le> \<lfloor>x * 10 ^ d + 1 / 2\<rfloor>" by (simp only: zero_le_floor)
  then have "0 \<le> (of_int \<lfloor>x * 10 ^ d + 1 / 2\<rfloor> :: rat) / 10 ^ d" by simp
  with x show ?thesis by (simp add: toFixed_rat_def)
qed

lemma toFixed_js_neg: "toFixed d (js_neg y) = js_neg (toFixed d y)"
  by (cases y) (simp_all add: toFixed_neg)

lemma toFixed_nonneg: "js_nonneg y \<Longrightarrow> js_nonneg (toFixed d y)"
  by (cases y) (simp_all add: toFixed_rat_nonneg)

lemma improvement_swap:
  assumes "0 < base"
  shows "improvement x y base = js_neg (improvement y x base)"
proof -
  have "js_sub (Fin x) (Fin y) = js_neg (js_sub (Fin y) (Fin x))"
    using to_double_neg [of "y - x"] by (simp add: js_sub_fin)
  then show ?thesis
    unfolding improvement_def
    by (simp only: js_div_neg [OF assms] js_mul_neg [of 100] toFixed_js_neg)
qed

lemma improvement_nonneg:
  assumes "0 < base" and "y \<le> x"
  shows "js_nonneg (improvement x y base)"
proof -
  from assms(2) have "0 \<le> x - y" by simp
  then have "js_nonneg (js_sub (Fin x) (Fin y))"
    unfolding js_sub_fin by (rule to_double_nonneg)
  then have "js_nonneg (js_div (js_sub (Fin x) (Fin y)) (Fin base))"
    using assms(1) by (intro js_div_nonneg)
  then have "js_nonneg (js_mul (js_div (js_sub (Fin x) (Fin y)) (Fin base)) (Fin 100))"
    by (intro js_mul_nonneg) simp_all
  then show ?thesis unfolding improvement_def by (rule toFixed_nonneg)
qed

lemma improvement_tie:
  assumes "0 < base"
  shows "improvement x x base = Fin 0"
  using assms by (simp add: improvement_def js_sub_fin to_double_zero toFixed_zero)

lemma summary_line:
  assumes "0 < base"
  shows "(fst (if js_greater (parseFloat (improvement x y base)) (Fin 0)
               then (SharedClient, improvement x y base)
               else (NewClient, js_abs (improvement x y base))) = SharedClient \<longrightarrow> y < x)
     \<and> (x \<le> y \<longrightarrow>
           (if js_greater (parseFloat (improvement x y base)) (Fin 0)
            then (SharedClient, improvement x y base)
            else (NewClient, js_abs (improvement x y base)))
           = (NewClient, improvement y x base))"
proof -
  have le: "\<not> js_greater (parseFloat (improvement x y base)) (Fin 0)
      \<and> js_abs (improvement x y base) = improvement y x base" if "x \<le> y"
  proof -
    from that assms have n: "js_nonneg (improvement y x base)" by (intro improvement_nonneg)
    have sw: "improvement x y base = js_neg (improvement y x base)"
      using assms by (rule improvement_swap)
    have pf: "parseFloat (improvement x y base) = js_neg (parseFloat (improvement y x base))"
      by (subst sw) (rule parseFloat_neg)
    have "\<not> js_greater (js_neg (parseFloat (improvement y x base))) (Fin 0)"
      using n by (intro not_greater_neg parseFloat_nonneg)
    then have g: "\<not> js_greater (parseFloat (improvement x y base)) (Fin 0)"
      by (subst pf)
    have "js_abs (js_neg (improvement y x base)) = improvement y x base"
      using n by (rule js_abs_neg)
    then have "js_abs (improvement x y base) = improvement y x base"
      by (subst sw)
    with g show ?thesis by simp
  qed
  show ?thesis
  proof (intro conjI impI)
    assume "fst (if js_greater (parseFloat (improvement x y base)) (Fin 0)
               then (SharedClient, improvement x y base)
               else (NewClient, js_abs (improvement x y base))) = SharedClient"
    then have "js_greater (parseFloat (improvement x y base)) (Fin 0)"
      by (simp split: if_splits)
    with le show "y < x" by (cases "x \<le> y") auto
  next
    assume "x \<le> y"
    with le show "(if js_greater (parseFloat (improvement x y base)) (Fin 0)
            then (SharedClient, improvement x y base)
            else (NewClient, js_abs (improvement x y base)))
           = (NewClient, improvement y x base)" by simp
  qed
qed

lemma latency_line:
  assumes "res_avgLatency sharedR = Fin a" and "res_avgLatency newR = Fin b"
  shows "cmp_latency_line (displayComparison sharedR newR) =
           (if js_greater (parseFloat (improvement b a b)) (Fin 0)
            then (SharedClient, improvement b a b)
            else (NewClient, js_abs (improvement b a b)))"
  by (simp add: displayComparison_def Let_def assms improvement_def
        del: toFixed.simps js_div.simps js_mul.simps parseFloat.simps)

lemma throughput_line:
  assumes "res_qps sharedR = Fin p" and "res_qps newR = Fin q"
  shows "cmp_throughput_line (displayComparison sharedR newR) =
           (if js_greater (parseFloat (improvement p q q)) (Fin 0)
            then (SharedClient, improvement p q q)
            else (NewClient, js_abs (improvement p q q)))"
  by (simp add: displayComparison_def Let_def assms improvement_def
        del: toFixed.simps js_div.simps js_mul.simps parseFloat.simps)

lemma first_row:
  "cmp_rows (displayComparison sharedR newR) ! 0
     = compare_metric True (res_avgLatency sharedR) (res_avgLatency newR)"
  by (simp add: displayComparison_def Let_def)

lemma row_winner_tie: "row_winner (compare_metric True (Fin x) (Fin x)) = NewClient"
  by (simp add: compare_metric_def Let_def)

text \<open>
  C9, as amended. With finite averages \<open>a\<close> (shared) and \<open>b > 0\<close> (new client),
  the summary line on latency computes \<open>(b - a) / b * 100\<close> in doubles and rounds it
  to one decimal. When that is positive the line names the shared client with it,
  and \<open>a < b\<close> then. Otherwise it names the new client with the absolute value, which
  for \<open>b \<le> a\<close> is \<open>(a - b) / b * 100\<close> computed and rounded the same way, a percentage
  of the new client's own average, and \<open>0\<close> on equal averages. The line on
  throughput does the same with \<open>(p - q) / q * 100\<close>.
\<close>

theorem comparison_verdict:
  assumes "res_avgLatency sharedR = Fin a" and "res_avgLatency newR = Fin b" and "0 < b"
    and "res_qps sharedR = Fin p" and "res_qps newR = Fin q" and "0 < q"
  shows "cmp_latency_line (displayComparison sharedR newR) =
           (if js_greater (parseFloat (improvement b a b)) (Fin 0)
            then (SharedClient, improvement b a b)
            else (NewClient, js_abs (improvement b a b)))
     \<and> cmp_throughput_line (displayComparison sharedR newR) =
           (if js_greater (parseFloat (improvement p q q)) (Fin 0)
            then (SharedClient, improvement p q q)
            else (NewClient, js_abs (improvement p q q)))
     \<and> (fst (cmp_latency_line (displayComparison sharedR newR)) = SharedClient \<longrightarrow> a < b)
     \<and> (fst (cmp_throughput_line (displayComparison sharedR newR)) = SharedClient \<longrightarrow> q < p)
     \<and> (b \<le> a \<longrightarrow>
          cmp_latency_line (displayComparison sharedR newR) = (NewClient, improvement a b b))
     \<and> (p \<le> q \<longrightarrow>
          cmp_throughput_line (displayComparison sharedR newR) = (NewClient, improvement q p q))
     \<and> (a = b \<longrightarrow> cmp_latency_line (displayComparison sharedR newR) = (NewClient, Fin 0))
     \<and> (p = q \<longrightarrow> cmp_throughput_line (displayComparison sharedR newR) = (NewClient, Fin 0))"
proof -
  note lat = latency_line [OF assms(1,2)]
  note thr = throughput_line [OF assms(4,5)]
  note sl = summary_line [OF assms(3), of b a]
  note st = summary_line [OF assms(6), of p q]
  have w1: "fst (cmp_latency_line (displayComparison sharedR newR)) = SharedClient \<longrightarrow> a < b"
    unfolding lat using sl by blast
  have w2: "fst (cmp_throughput_line (displayComparison sharedR newR)) = SharedClient \<longrightarrow> q < p"
    unfolding thr using st by blast
  have n1: "b \<le> a \<longrightarrow>
      cmp_latency_line (displayComparison sharedR newR) = (NewClient, improvement a b b)"
    unfolding lat using sl by blast
  have n2: "p \<le> q \<longrightarrow>
      cmp_throughput_line (displayComparison sharedR newR) = (NewClient, improvement q p q)"
    unfolding thr using st by blast
  have t1: "a = b \<longrightarrow> cmp_latency_line (displayComparison sharedR newR) = (NewClient, Fin 0)"
    using n1 improvement_tie [OF assms(3), of b] by auto
  have t2: "p = q \<longrightarrow> cmp_throughput_line (displayComparison sharedR newR) = (NewClient, Fin 0)"
    using n2 improvement_tie [OF assms(6), of q] by auto
  from lat thr w1 w2 n1 n2 t1 t2 show ?thesis by blast
qed

theorem comparison_verdict_witness:
  "res_avgLatency (strategy_results 40 25) = Fin 40 \<and> res_avgLatency (strategy_results 50 20) = Fin 50
   \<and> (0 :: rat) < 50
   \<and> res_qps (strategy_results 40 25) = Fin 25 \<and> res_qps (strategy_results 50 20) = Fin 20
   \<and> (0 :: rat) < 20
   \<and> cmp_latency_line (displayComparison (strategy_results 40 25) (strategy_results 50 20))
        = (SharedClient, Fin 20)
   \<and> cmp_throughput_line (displayComparison (strategy_results 40 25) (strategy_results 50 20))
        = (SharedClient, Fin 25)
   \<and> (40 :: rat) < 50 \<and> (20 :: rat) < 25
   \<and> cmp_latency_line (displayComparison (strategy_results 50 20) (strategy_results 50 20))
        = (NewClient, Fin 0)
   \<and> cmp_throughput_line (displayComparison (strategy_results 50 20) (strategy_results 50 20))
        = (NewClient, Fin 0)
   \<and> (40 :: rat) \<le> 50
   \<and> cmp_latency_line (displayComparison (strategy_results 50 25) (strategy_results 40 20))
        = (NewClient, Fin 25)
   \<and> cmp_latency_line (displayComparison (strategy_results 29 25) (strategy_results 80 20))
        = (SharedClient, Fin (637 / 10))"
proof -
  have a1: "res_avgLatency (strategy_results 40 25) = Fin 40"
    and a2: "res_avgLatency (strategy_results 50 20) = Fin 50"
    and a4: "res_qps (strategy_results 40 25) = Fin 25"
    and a5: "res_qps (strategy_results 50 20) = Fin 20"
    and b1: "res_avgLatency (strategy_results 50 25) = Fin 50"
    and b2: "res_avgLatency (strategy_results 40 20) = Fin 40"
    and b4: "res_qps (strategy_results 50 25) = Fin 25"
    and b5: "res_qps (strategy_results 40 20) = Fin 20"
    and c1: "res_avgLatency (strategy_results 29 25) = Fin 29"
    and c2: "res_avgLatency (strategy_results 80 20) = Fin 80"
    and c4: "res_qps (strategy_results 29 25) = Fin 25"
    and c5: "res_qps (strategy_results 80 20) = Fin 20"
    by (simp_all add: strategy_results_def)
  have a3: "(0 :: rat) < 50" and a6: "(0 :: rat) < 20" and b3: "(0 :: rat) < 40"
    and c3: "(0 :: rat) < 80" by simp_all
  have i1: "improvement 50 40 50 = Fin 20" by code_simp
  have i2: "improvement 25 20 20 = Fin 25" by code_simp
  have i3: "improvement 50 40 40 = Fin 25" by code_simp
  have i4: "improvement 80 29 80 = Fin (637 / 10)" by code_simp
  have p1: "js_greater (parseFloat (Fin 20)) (Fin 0)" by code_simp
  have p2: "js_greater (parseFloat (Fin 25)) (Fin 0)" by code_simp
  have p4: "js_greater (parseFloat (Fin (637 / 10))) (Fin 0)" by code_simp
  note win = comparison_verdict [OF a1 a2 a3 a4 a5 a6]
  note tie = comparison_verdict [OF a2 a2 a3 a5 a5 a6]
  note los = comparison_verdict [OF b1 b2 b3 b4 b5 a6]
  note rnd = comparison_verdict [OF c1 c2 c3 c4 c5 a6]
  have w: "cmp_latency_line (displayComparison (strategy_results 40 25) (strategy_results 50 20))
        = (SharedClient, Fin 20)
    \<and> cmp_throughput_line (displayComparison (strategy_results 40 25) (strategy_results 50 20))
        = (SharedClient, Fin 25)"
    using win [unfolded i1 i2] p1 p2 by simp
  have t: "cmp_latency_line (displayComparison (strategy_results 50 20) (strategy_results 50 20))
        = (NewClient, Fin 0)
    \<and> cmp_throughput_line (displayComparison (strategy_results 50 20) (strategy_results 50 20))
        = (NewClient, Fin 0)"
    using tie by blast
  have le: "(40 :: rat) \<le> 50" by simp
  have l: "cmp_latency_line (displayComparison (strategy_results 50 25) (strategy_results 40 20))
        = (NewClient, Fin 25)"
    using los [unfolded i3] le by blast
  have r: "cmp_latency_line (displayComparison (strategy_results 29 25) (strategy_results 80 20))
        = (SharedClient, Fin (637 / 10))"
    using rnd [unfolded i4] p4 by simp
  from a1 a2 a4 a5 w t l r show ?thesis by simp
qed

text \<open>
  C9 as stated fails: with averages \<open>50\<close> (shared) and \<open>40\<close> (new client) the
  line gives \<open>25\<close> percent, not \<open>(50 - 40) / 50 * 100 = 20\<close>; and on equal
  averages the line and the table row name the new client.
\<close>

theorem comparison_counterexample:
  "cmp_latency_line (displayComparison (strategy_results 50 20) (strategy_results 40 25))
     = (NewClient, Fin 25)
   \<and> (25 :: rat) \<noteq> (50 - 40) / 50 * 100
   \<and> cmp_latency_line (displayComparison (strategy_results 40 20) (strategy_results 40 20))
     = (NewClient, Fin 0)
   \<and> row_winner (cmp_rows (displayComparison (strategy_results 40 20) (strategy_results 40 20)) ! 0)
     = NewClient"
proof -
  have s50: "res_avgLatency (strategy_results 50 20) = Fin 50"
    and s40: "res_avgLatency (strategy_results 40 25) = Fin 40"
    and t40: "res_avgLatency (strategy_results 40 20) = Fin 40"
    by (simp_all add: strategy_results_def)
  have i: "improvement 40 50 40 = Fin (- 25)" by code_simp
  have p: "\<not> js_greater (parseFloat (Fin (- 25))) (Fin 0)" by code_simp
  have z: "improvement 40 40 40 = Fin 0" by (rule improvement_tie) simp
  have pz: "\<not> js_greater (parseFloat (Fin 0)) (Fin 0)"
    by (simp add: to_double_zero js_greater_def)
  have l1: "cmp_latency_line (displayComparison (strategy_results 50 20) (strategy_results 40 25))
     = (NewClient, Fin 25)"
    unfolding latency_line [OF s50 s40] i using p by simp
  have l2: "cmp_latency_line (displayComparison (strategy_results 40 20) (strategy_results 40 20))
     = (NewClient, Fin 0)"
    unfolding latency_line [OF t40 t40] z using pz by simp
  have l3: "row_winner (cmp_rows (displayComparison (strategy_results 40 20) (strategy_results 40 20)) ! 0)
     = NewClient"
    unfolding first_row t40 by (rule row_winner_tie)
  from l1 l2 l3 show ?thesis by simp
qed

section \<open>Unknown patterns\<close>

lemma js_get_undefined:
  "k \<notin> fst ` set obj \<Longrightarrow> k \<notin> set Object_prototype_keys \<Longrightarrow> js_get obj k = UndefinedValue"
  by (simp add: js_get_def map_of_eq_None_iff [THEN iffD2])

lemma mixed_registered: "''mixed'' \<in> fst ` set TEST_PATTERNS" "''mixed'' \<in> fst ` set TEST_PATTERNS_cli"
  by (simp_all add: TEST_PATTERNS_def TEST_PATTERNS_cli_def)

lemma resolve_undefined:
  "js_get table pat = UndefinedValue \<Longrightarrow> resolve_limit table qn pat = Inl TypeError"
  by (simp add: resolve_limit_def)

lemma dispatch_first_throw:
  assumes "resolve 0 = Inl e" and "1 \<le> n" and "1 \<le> conc"
  shows "dispatch_loop resolve n conc sh respond 0 [] stats = Some ([[]], Inl e)"
proof -
  from assms(2,3) obtain k where k: "nat (min conc (n - 0)) = Suc k"
    by (cases "nat (min conc (n - 0))") auto
  have "launch_calls resolve 0 0 (Suc k) [] = ([], Some e)"
    using assms(1) by simp
  with k assms(2) show ?thesis
    by (subst dispatch_loop.simps) (simp add: Let_def)
qed

text \<open>
  C5, as amended. A pattern name that is neither a key of the table nor a property
  inherited from \<open>Object.prototype\<close> makes \<open>getQueryLimit\<close> throw a
  \<open>TypeError\<close>. In \<open>route.ts\<close> a run with at least one query and a concurrency of
  at least one then ends with that error in its first batch, with no call
  launched; the command-line scripts end with it before their loop starts.
\<close>

theorem unknown_pattern_aborts:
  "(pat \<notin> fst ` set TEST_PATTERNS \<and> pat \<notin> set Object_prototype_keys \<longrightarrow>
      getQueryLimit qn pat = Inl TypeError
      \<and> (1 \<le> n \<and> 1 \<le> conc \<longrightarrow>
           runLoadTest \<lparr>cfg_pattern = pat, cfg_totalQueries = n, cfg_concurrency = conc\<rparr>
             mode sharedClient respond ta tb = Some ([[]], Inl TypeError)))
   \<and> (pat \<notin> fst ` set TEST_PATTERNS_cli \<and> pat \<notin> set Object_prototype_keys \<longrightarrow>
      getQueryLimit_cli pat qn = Inl TypeError
      \<and> runLoadTest_compare \<lparr>cfg_pattern = pat, cfg_totalQueries = n, cfg_concurrency = conc\<rparr>
           sharedClient respond ta tb = Some ([], Inl TypeError)
      \<and> runLoadTest_advanced
           \<lparr>adv_pattern = pat, adv_totalQueries = n, adv_concurrency = conc, adv_duration = d\<rparr>
           respond ta clock tb = Some ([], Inl TypeError))"
proof (intro conjI impI)
  assume h: "pat \<notin> fst ` set TEST_PATTERNS \<and> pat \<notin> set Object_prototype_keys"
  then have u: "js_get TEST_PATTERNS pat = UndefinedValue" by (simp add: js_get_undefined)
  then show g: "getQueryLimit qn pat = Inl TypeError"
    by (simp add: getQueryLimit_def resolve_undefined)
  assume nc: "1 \<le> n \<and> 1 \<le> conc"
  have "getQueryLimit 0 pat = Inl TypeError"
    using u by (simp add: getQueryLimit_def resolve_undefined)
  with nc have "dispatch_loop (\<lambda>qn. getQueryLimit qn pat) n conc (mode = SharedMode \<and> sharedClient)
      respond 0 [] (createStats\<lparr>startTime := ta\<rparr>) = Some ([[]], Inl TypeError)"
    by (intro dispatch_first_throw) simp_all
  then show "runLoadTest \<lparr>cfg_pattern = pat, cfg_totalQueries = n, cfg_concurrency = conc\<rparr>
             mode sharedClient respond ta tb = Some ([[]], Inl TypeError)"
    by (simp add: runLoadTest_def)
next
  assume h: "pat \<notin> fst ` set TEST_PATTERNS_cli \<and> pat \<notin> set Object_prototype_keys"
  then have u: "js_get TEST_PATTERNS_cli pat = UndefinedValue" by (simp add: js_get_undefined)
  then show "getQueryLimit_cli pat qn = Inl TypeError"
    by (simp add: getQueryLimit_cli_def resolve_undefined)
  from u show "runLoadTest_compare \<lparr>cfg_pattern = pat, cfg_totalQueries = n, cfg_concurrency = conc\<rparr>
           sharedClient respond ta tb = Some ([], Inl TypeError)"
    by (simp add: runLoadTest_compare_def)
  from u show "runLoadTest_advanced
           \<lparr>adv_pattern = pat, adv_totalQueries = n, adv_concurrency = conc, adv_duration = d\<rparr>
           respond ta clock tb = Some ([], Inl TypeError)"
    by (simp add: runLoadTest_advanced_def)
qed

theorem unknown_pattern_aborts_witness:
  "''bogus'' \<notin> fst ` set TEST_PATTERNS \<and> ''bogus'' \<notin> set Object_prototype_keys
   \<and> ''bogus'' \<notin> fst ` set TEST_PATTERNS_cli
   \<and> (1 :: int) \<le> 50 \<and> (1 :: int) \<le> 10
   \<and> getQueryLimit 0 ''bogus'' = Inl TypeError
   \<and> runLoadTest \<lparr>cfg_pattern = ''bogus'', cfg_totalQueries = 50, cfg_concurrency = 10\<rparr>
        NewMode False (\<lambda>qn. Resolved 40 300) 1000 2000 = Some ([[]], Inl TypeError)
   \<and> getQueryLimit_cli ''bogus'' 0 = Inl TypeError
   \<and> runLoadTest_compare \<lparr>cfg_pattern = ''bogus'', cfg_totalQueries = 50, cfg_concurrency = 10\<rparr>
        False (\<lambda>qn. Resolved 40 300) 1000 2000 = Some ([], Inl TypeError)
   \<and> runLoadTest_advanced
        \<lparr>adv_pattern = ''bogus'', adv_totalQueries = 50, adv_concurrency = 10, adv_duration = 0\<rparr>
        (\<lambda>qn. Resolved 40 300) 1000 (\<lambda>k. 1000) 2000 = Some ([], Inl TypeError)"
proof -
  have k1: "''bogus'' \<notin> fst ` set TEST_PATTERNS" by (simp add: TEST_PATTERNS_def)
  have k2: "''bogus'' \<notin> set Object_prototype_keys" by (simp add: Object_prototype_keys_def)
  have k3: "''bogus'' \<notin> fst ` set TEST_PATTERNS_cli" by (simp add: TEST_PATTERNS_cli_def)
  from unknown_pattern_aborts [of "''bogus''" 0 50 10 NewMode False "\<lambda>qn. Resolved 40 300" 1000 2000 0 "\<lambda>k. 1000"]
    k1 k2 k3
  show ?thesis by simp
qed

text \<open>
  C5 as stated fails: \<open>constructor\<close> is not a key of the table, yet the lookup
  finds the inherited property, the resolver returns \<^verbatim>\<open>undefined\<close> without
  failing, and the run launches its calls.
\<close>

theorem unknown_pattern_counterexample:
  "''constructor'' \<notin> fst ` set TEST_PATTERNS
   \<and> getQueryLimit 0 ''constructor'' = Inr None
   \<and> runLoadTest \<lparr>cfg_pattern = ''constructor'', cfg_totalQueries = 2, cfg_concurrency = 1\<rparr>
        NewMode False (\<lambda>qn. Rejected ''bad argument'') 1000 2000
      = Some ([[(1, None)], [(2, None)]],
          Inr (createStats\<lparr>totalQueries := 2, failedQueries := 2,
                 errors := [(1, ''bad argument''), (2, ''bad argument'')],
                 startTime := 1000, endTime := 2000\<rparr>))"
  by code_simp


section \<open>Batches of a run\<close>

lemma launch_calls_ok:
  assumes "\<forall>qn. \<exists>l. resolve qn = Inr l"
  shows "launch_calls resolve q i k batch =
    (batch @ map (\<lambda>j. (q + i + int j + 1, limit_of resolve (q + i + int j))) [0..<k], None)"
proof (induction k arbitrary: i batch)
  case 0
  show ?case by simp
next
  case (Suc k)
  from assms obtain l where l: "resolve (q + i) = Inr l" by blast
  have "launch_calls resolve q i (Suc k) batch
      = launch_calls resolve q (i + 1) k (batch @ [(q + i + 1, l)])"
    using l by simp
  also have "\<dots> = ((batch @ [(q + i + 1, l)])
      @ map (\<lambda>j. (q + (i + 1) + int j + 1, limit_of resolve (q + (i + 1) + int j))) [0..<k], None)"
    by (rule Suc.IH)
  also have "(batch @ [(q + i + 1, l)])
      @ map (\<lambda>j. (q + (i + 1) + int j + 1, limit_of resolve (q + (i + 1) + int j))) [0..<k]
    = batch @ map (\<lambda>j. (q + i + int j + 1, limit_of resolve (q + i + int j))) [0..<Suc k]"
  proof -
    have sh: "\<And>j. q + i + int (Suc j) = q + (i + 1) + int j" by simp
    have hd: "limit_of resolve (q + i) = l" using l by (simp add: limit_of_def)
    have "map (\<lambda>j. (q + i + int j + 1, limit_of resolve (q + i + int j))) [0..<Suc k]
        = (q + i + 1, l)
          # map (\<lambda>j. (q + i + int (Suc j) + 1, limit_of resolve (q + i + int (Suc j)))) [0..<k]"
      using hd by (simp add: map_upt_Suc del: upt_Suc)
    then show ?thesis unfolding sh by simp
  qed
  finally show ?case .
qed

lemma map_fst_numbered:
  "map fst (map (\<lambda>j. (q + int j + 1, g j)) [0..<k]) = [q + 1..q + int k]"
proof (induction k)
  case 0
  show ?case by simp
next
  case (Suc k)
  have "[q + 1..q + int (Suc k)] = [q + 1..q + int (Suc k) - 1] @ [q + int (Suc k)]"
    by (rule upto_rec2) simp
  with Suc show ?case by (simp add: add.commute add.left_commute)
qed

lemma numbered_upto:
  "map (\<lambda>j. i + int j + 1) [0..<k] = [i + 1..i + int k]"
  using map_fst_numbered [of i "\<lambda>j. ()" k] by (simp add: comp_def)

lemma settle_as_record:
  "settle_batch sh respond b s
     = foldl (record_outcome sh) s (map (\<lambda>c. (fst c, snd c, respond (fst c))) b)"
  by (simp add: settle_batch_def foldl_map record_outcome_def)

lemma settle_total:
  "totalQueries (settle_batch sh respond b s) = totalQueries s + length b"
proof (induction b arbitrary: s)
  case Nil
  show ?case by (simp add: settle_batch_def)
next
  case (Cons c b)
  have step: "settle_batch sh respond (c # b) s
      = settle_batch sh respond b
          ((if sh then executeQueryWithSharedClient else executeQueryWithNewClient)
             (fst c) (snd c) (respond (fst c)) s)"
    by (simp add: settle_batch_def)
  have one: "totalQueries ((if sh then executeQueryWithSharedClient else executeQueryWithNewClient)
             (fst c) (snd c) (respond (fst c)) s) = totalQueries s + 1"
    by (cases "respond (fst c)")
       (simp_all add: executors_agree executeQueryWithNewClient_def)
  show ?case unfolding step by (simp add: Cons.IH one)
qed

lemma ceil_small:
  assumes "1 \<le> r" and "r \<le> c"
  shows "\<lceil>of_int r / of_int c :: rat\<rceil> = 1"
proof (rule ceiling_unique)
  from assms have "(0 :: rat) < of_int r" and "(0 :: rat) < of_int c" by simp_all
  then have "(0 :: rat) < of_int r / of_int c" by (rule divide_pos_pos)
  then show "of_int 1 - 1 < (of_int r / of_int c :: rat)" by simp
  from assms have "(of_int r :: rat) \<le> of_int c" and "(0 :: rat) < of_int c" by simp_all
  then show "(of_int r / of_int c :: rat) \<le> of_int 1" by (simp add: divide_le_eq_1_pos)
qed

lemma ceil_step:
  assumes "1 \<le> c"
  shows "\<lceil>of_int (r - c) / of_int c :: rat\<rceil> + 1 = \<lceil>of_int r / of_int c :: rat\<rceil>"
proof -
  from assms have "(of_int c :: rat) \<noteq> 0" by simp
  then have "(of_int (r - c) / of_int c :: rat) = of_int r / of_int c - 1"
    by (simp add: diff_divide_distrib)
  then show ?thesis by simp
qed

lemma ceil_remaining:
  assumes "1 \<le> conc" and "q < n"
  shows "1 + \<lceil>of_int (max 0 (n - (q + min conc (n - q)))) / of_int conc :: rat\<rceil>
           = \<lceil>of_int (max 0 (n - q)) / of_int conc :: rat\<rceil>"
proof (cases "n - q \<le> conc")
  case True
  with assms have "\<lceil>of_int (n - q) / of_int conc :: rat\<rceil> = 1"
    by (intro ceil_small) simp_all
  moreover from True have "min conc (n - q) = n - q" by simp
  ultimately show ?thesis using assms by simp
next
  case False
  then have m: "min conc (n - q) = conc" by simp
  from False have "max 0 (n - (q + conc)) = (n - q) - conc" by simp
  with ceil_step [OF assms(1), of "n - q"] m assms show ?thesis by simp
qed

lemma sizes_Cons:
  assumes b: "int (length b) = min conc r"
    and rest: "\<forall>k<length new. int (length (new ! k))
                 = min conc (r - int (length b) - int (length (concat (take k new))))"
  shows "\<forall>k<length (b # new). int (length ((b # new) ! k))
           = min conc (r - int (length (concat (take k (b # new)))))"
proof (intro allI impI)
  fix k assume k: "k < length (b # new)"
  show "int (length ((b # new) ! k)) = min conc (r - int (length (concat (take k (b # new)))))"
  proof (cases k)
    case 0
    with b show ?thesis by simp
  next
    case (Suc k')
    with k have "k' < length new" by simp
    with rest have "int (length (new ! k'))
        = min conc (r - int (length b) - int (length (concat (take k' new))))" by blast
    with Suc show ?thesis by (simp add: algebra_simps)
  qed
qed

lemma loop_partition:
  assumes ok: "\<forall>qn. \<exists>l. resolve qn = Inr l" and c: "1 \<le> conc"
  shows "\<exists>new stats'.
      dispatch_loop resolve n conc sh respond q bs stats = Some (bs @ new, Inr stats')
    \<and> map fst (concat new) = [q + 1..n]
    \<and> int (length new) = \<lceil>of_int (max 0 (n - q)) / of_int conc :: rat\<rceil>
    \<and> (\<forall>k<length new. int (length (new ! k))
          = min conc (n - q - int (length (concat (take k new)))))
    \<and> totalQueries stats' = totalQueries stats + nat (n - q)
    \<and> stats' = foldl (record_outcome sh) stats
                (map (\<lambda>c. (fst c, snd c, respond (fst c))) (concat new))"
proof (induction "nat (n - q)" arbitrary: q bs stats rule: less_induct)
  case less
  show ?case
  proof (cases "q < n")
    case False
    then have "dispatch_loop resolve n conc sh respond q bs stats = Some (bs @ [], Inr stats)"
      by (subst dispatch_loop.simps) simp
    moreover from False have "map fst (concat ([] :: Call list list)) = [q + 1..n]" by simp
    moreover from False have "int (length ([] :: Call list list))
        = \<lceil>of_int (max 0 (n - q)) / of_int conc :: rat\<rceil>" by simp
    moreover from False have "totalQueries stats = totalQueries stats + nat (n - q)" by simp
    ultimately show ?thesis by (intro exI [of _ "[]"] exI [of _ stats]) simp
  next
    case True
    define bsz where "bsz = min conc (n - q)"
    define b where "b = map (\<lambda>j. (q + 0 + int j + 1, limit_of resolve (q + 0 + int j))) [0..<nat bsz]"
    from True c have bsz1: "1 \<le> bsz" and bszn: "q + bsz \<le> n" by (simp_all add: bsz_def)
    have launched: "launch_calls resolve q 0 (nat bsz) [] = (b, None)"
      unfolding b_def using launch_calls_ok [OF ok, of q 0 "nat bsz" "[]"] by simp
    have lenb: "int (length b) = bsz" using bsz1 by (simp add: b_def)
    have fstb: "map fst b = [q + 1..q + bsz]"
      unfolding b_def using map_fst_numbered [of q _ "nat bsz"] bsz1 by simp
    have unfold: "dispatch_loop resolve n conc sh respond q bs stats
        = dispatch_loop resolve n conc sh respond (q + bsz) (bs @ [b])
            (settle_batch sh respond b stats)"
      using True launched by (subst dispatch_loop.simps) (simp add: Let_def bsz_def)
    from bsz1 True have "nat (n - (q + bsz)) < nat (n - q)" by simp
    from less [OF this, of "bs @ [b]" "settle_batch sh respond b stats"]
    obtain new stats' where
          r: "dispatch_loop resolve n conc sh respond (q + bsz) (bs @ [b])
                (settle_batch sh respond b stats) = Some ((bs @ [b]) @ new, Inr stats')"
      and calls: "map fst (concat new) = [q + bsz + 1..n]"
      and len: "int (length new) = \<lceil>of_int (max 0 (n - (q + bsz))) / of_int conc :: rat\<rceil>"
      and sizes: "\<forall>k<length new. int (length (new ! k))
            = min conc (n - (q + bsz) - int (length (concat (take k new))))"
      and tot: "totalQueries stats' = totalQueries (settle_batch sh respond b stats) + nat (n - (q + bsz))"
      and rec: "stats' = foldl (record_outcome sh) (settle_batch sh respond b stats)
                  (map (\<lambda>c. (fst c, snd c, respond (fst c))) (concat new))"
      by blast
    have r': "dispatch_loop resolve n conc sh respond q bs stats = Some (bs @ (b # new), Inr stats')"
      using unfold r by simp
    have "[q + 1..n] = [q + 1..q + bsz] @ [q + bsz + 1..n]"
      using bsz1 bszn by (intro upto_split2) simp_all
    then have calls': "map fst (concat (b # new)) = [q + 1..n]"
      using fstb calls by simp
    have len': "int (length (b # new)) = \<lceil>of_int (max 0 (n - q)) / of_int conc :: rat\<rceil>"
      using ceil_remaining [OF c True] len by (simp add: bsz_def)
    have "\<forall>k<length new. int (length (new ! k))
            = min conc ((n - q) - int (length b) - int (length (concat (take k new))))"
      using sizes lenb by (simp add: algebra_simps)
    moreover have "int (length b) = min conc (n - q)" using lenb by (simp add: bsz_def)
    ultimately have sizes': "\<forall>k<length (b # new). int (length ((b # new) ! k))
           = min conc (n - q - int (length (concat (take k (b # new)))))"
      by (intro sizes_Cons)
    have "nat (n - q) = length b + nat (n - (q + bsz))"
      using lenb bsz1 bszn by linarith
    then have tot': "totalQueries stats' = totalQueries stats + nat (n - q)"
      using tot by (simp add: settle_total)
    have rec': "stats' = foldl (record_outcome sh) stats
                  (map (\<lambda>c. (fst c, snd c, respond (fst c))) (concat (b # new)))"
      using rec by (simp add: settle_as_record)
    from r' calls' len' sizes' tot' rec' show ?thesis by blast
  qed
qed

lemma create_batches_partition:
  assumes c: "1 \<le> conc"
  shows "\<exists>new.
      create_batches n conc i bs = Some (bs @ new)
    \<and> concat new = [i + 1..n]
    \<and> int (length new) = \<lceil>of_int (max 0 (n - i)) / of_int conc :: rat\<rceil>
    \<and> (\<forall>k<length new. int (length (new ! k))
          = min conc (n - i - int (length (concat (take k new)))))"
proof (induction "nat (n - i)" arbitrary: i bs rule: less_induct)
  case less
  show ?case
  proof (cases "i < n")
    case False
    then have "create_batches n conc i bs = Some (bs @ [])"
      by (subst create_batches.simps) simp
    moreover from False have "concat ([] :: int list list) = [i + 1..n]" by simp
    moreover from False have "int (length ([] :: int list list))
        = \<lceil>of_int (max 0 (n - i)) / of_int conc :: rat\<rceil>" by simp
    ultimately show ?thesis by (intro exI [of _ "[]"]) simp
  next
    case True
    define bsz where "bsz = min conc (n - i)"
    define b where "b = map (\<lambda>j. i + int j + 1) [0..<nat bsz]"
    from True c have bsz1: "1 \<le> bsz" and bszn: "i + bsz \<le> n" by (simp_all add: bsz_def)
    have lenb: "int (length b) = bsz" using bsz1 by (simp add: b_def)
    have bupto: "b = [i + 1..i + bsz]"
      unfolding b_def using numbered_upto [of i "nat bsz"] bsz1 by simp
    have unfold: "create_batches n conc i bs = create_batches n conc (i + conc) (bs @ [b])"
      using True by (subst create_batches.simps) (simp add: Let_def bsz_def b_def)
    from c True have "nat (n - (i + conc)) < nat (n - i)" by simp
    from less [OF this, of "bs @ [b]"]
    obtain new where
          r: "create_batches n conc (i + conc) (bs @ [b]) = Some ((bs @ [b]) @ new)"
      and calls: "concat new = [i + conc + 1..n]"
      and len: "int (length new) = \<lceil>of_int (max 0 (n - (i + conc))) / of_int conc :: rat\<rceil>"
      and sizes: "\<forall>k<length new. int (length (new ! k))
            = min conc (n - (i + conc) - int (length (concat (take k new))))"
      by blast
    have r': "create_batches n conc i bs = Some (bs @ (b # new))"
      using unfold r by simp
    show ?thesis
    proof (cases "n - i \<le> conc")
      case last: True
      then have bl: "bsz = n - i" by (simp add: bsz_def)
      from last have "max 0 (n - (i + conc)) = 0" by simp
      with len have "new = []" by simp
      moreover have "int (length [b]) = \<lceil>of_int (max 0 (n - i)) / of_int conc :: rat\<rceil>"
        using ceil_small [of "n - i" conc] True last by simp
      moreover have "concat [b] = [i + 1..n]" using bupto bl by simp
      moreover have "\<forall>k<length [b]. int (length ([b] ! k))
           = min conc (n - i - int (length (concat (take k [b]))))"
        using lenb by (simp add: bsz_def)
      ultimately show ?thesis using r' by blast
    next
      case more: False
      then have bc: "bsz = conc" by (simp add: bsz_def)
      have "[i + 1..n] = [i + 1..i + bsz] @ [i + bsz + 1..n]"
        using bsz1 bszn by (intro upto_split2) simp_all
      then have calls': "concat (b # new) = [i + 1..n]"
        using bupto calls bc by simp
      have len': "int (length (b # new)) = \<lceil>of_int (max 0 (n - i)) / of_int conc :: rat\<rceil>"
        using ceil_remaining [OF c True] len bc by (simp add: bsz_def)
      have "\<forall>k<length new. int (length (new ! k))
            = min conc ((n - i) - int (length b) - int (length (concat (take k new))))"
        using sizes lenb bc by (simp add: algebra_simps)
      moreover have "int (length b) = min conc (n - i)" using lenb by (simp add: bsz_def)
      ultimately have sizes': "\<forall>k<length (b # new). int (length ((b # new) ! k))
           = min conc (n - i - int (length (concat (take k (b # new)))))"
        by (intro sizes_Cons)
      from r' calls' len' sizes' show ?thesis by blast
    qed
  qed
qed

lemma own_pattern_resolves:
  assumes "map_of table pat = Some e"
  shows "\<exists>l. resolve_limit table qn pat = Inr l \<or> (pat = ''mixed'' \<and> (\<exists>x. e = FixedLimit x))"
  using assms by (cases e) (auto simp add: resolve_limit_def js_get_def Let_def)

lemma mixed_entry: "map_of TEST_PATTERNS ''mixed'' = Some (MixedLimits [1, 10, 50, 100, 250, 500])"
  by (simp add: TEST_PATTERNS_def)

lemma registered_resolves:
  assumes "pat \<in> fst ` set TEST_PATTERNS"
  shows "\<forall>qn. \<exists>l. getQueryLimit qn pat = Inr l"
proof
  fix qn
  from assms obtain e where e: "map_of TEST_PATTERNS pat = Some e"
    by (metis map_of_eq_None_iff not_Some_eq)
  have "\<not> (pat = ''mixed'' \<and> (\<exists>x. e = FixedLimit x))"
    using e mixed_entry by auto
  with own_pattern_resolves [OF e, of qn] show "\<exists>l. getQueryLimit qn pat = Inr l"
    by (simp add: getQueryLimit_def)
qed

text \<open>
  C4. With \<open>n \<ge> 1\<close> queries, a concurrency \<open>conc \<ge> 1\<close> and a registered
  pattern, \<open>runLoadTest\<close> of \<open>route.ts\<close> ends and returns statistics; the calls it
  launched are numbered \<open>1\<close> to \<open>n\<close>, in \<open>\<lceil>n / conc\<rceil>\<close> batches, each of the
  size \<open>min conc r\<close> where \<open>r\<close> is what the earlier batches left, hence at most
  \<open>conc\<close>. The batches built by \<open>load-test.mjs\<close> are the same.
\<close>

theorem count_based_batches:
  assumes "1 \<le> n" and "1 \<le> conc" and "pat \<in> fst ` set TEST_PATTERNS"
  shows "(\<exists>batches stats.
            runLoadTest \<lparr>cfg_pattern = pat, cfg_totalQueries = n, cfg_concurrency = conc\<rparr>
              mode sharedClient respond ta tb = Some (batches, Inr stats)
          \<and> map fst (concat batches) = [1..n]
          \<and> int (length batches) = \<lceil>of_int n / of_int conc :: rat\<rceil>
          \<and> (\<forall>k<length batches.
                int (length (batches ! k))
                  = min conc (n - int (length (concat (take k batches))))
                \<and> int (length (batches ! k)) \<le> conc)
          \<and> totalQueries stats = nat n)
       \<and> (\<exists>batches.
            create_batches n conc 0 [] = Some batches
          \<and> concat batches = [1..n]
          \<and> int (length batches) = \<lceil>of_int n / of_int conc :: rat\<rceil>
          \<and> (\<forall>k<length batches.
                int (length (batches ! k))
                  = min conc (n - int (length (concat (take k batches))))
                \<and> int (length (batches ! k)) \<le> conc))"
proof (rule conjI)
  from assms(1) have m: "max 0 (n - 0) = n" by simp
  from loop_partition [OF registered_resolves [OF assms(3)] assms(2),
      of n "mode = SharedMode \<and> sharedClient" respond 0 "[]" "createStats\<lparr>startTime := ta\<rparr>"]
  obtain new stats' where
        r: "dispatch_loop (\<lambda>qn. getQueryLimit qn pat) n conc (mode = SharedMode \<and> sharedClient)
              respond 0 [] (createStats\<lparr>startTime := ta\<rparr>) = Some ([] @ new, Inr stats')"
    and calls: "map fst (concat new) = [0 + 1..n]"
    and len: "int (length new) = \<lceil>of_int (max 0 (n - 0)) / of_int conc :: rat\<rceil>"
    and sizes: "\<forall>k<length new. int (length (new ! k))
          = min conc (n - 0 - int (length (concat (take k new))))"
    and tot: "totalQueries stats' = totalQueries (createStats\<lparr>startTime := ta\<rparr>) + nat (n - 0)"
    by blast
  have run: "runLoadTest \<lparr>cfg_pattern = pat, cfg_totalQueries = n, cfg_concurrency = conc\<rparr>
              mode sharedClient respond ta tb = Some (new, Inr (stats'\<lparr>endTime := tb\<rparr>))"
    using r by (simp add: runLoadTest_def)
  have t: "totalQueries (stats'\<lparr>endTime := tb\<rparr>) = nat n"
    using tot by (simp add: createStats_def)
  have s: "\<forall>k<length new. int (length (new ! k)) = min conc (n - int (length (concat (take k new))))
                \<and> int (length (new ! k)) \<le> conc"
    using sizes by simp
  from run calls len s t m
  show "\<exists>batches stats.
            runLoadTest \<lparr>cfg_pattern = pat, cfg_totalQueries = n, cfg_concurrency = conc\<rparr>
              mode sharedClient respond ta tb = Some (batches, Inr stats)
          \<and> map fst (concat batches) = [1..n]
          \<and> int (length batches) = \<lceil>of_int n / of_int conc :: rat\<rceil>
          \<and> (\<forall>k<length batches.
                int (length (batches ! k))
                  = min conc (n - int (length (concat (take k batches))))
                \<and> int (length (batches ! k)) \<le> conc)
          \<and> totalQueries stats = nat n"
    by (intro exI [of _ new] exI [of _ "stats'\<lparr>endTime := tb\<rparr>"]) simp
next
  from assms(1) have m: "max 0 (n - 0) = n" by simp
  from create_batches_partition [OF assms(2), of n 0 "[]"]
  obtain new where
        r: "create_batches n conc 0 [] = Some ([] @ new)"
    and calls: "concat new = [0 + 1..n]"
    and len: "int (length new) = \<lceil>of_int (max 0 (n - 0)) / of_int conc :: rat\<rceil>"
    and sizes: "\<forall>k<length new. int (length (new ! k))
          = min conc (n - 0 - int (length (concat (take k new))))"
    by blast
  have s: "\<forall>k<length new. int (length (new ! k)) = min conc (n - int (length (concat (take k new))))
                \<and> int (length (new ! k)) \<le> conc"
    using sizes by simp
  from r calls len s m
  show "\<exists>batches.
            create_batches n conc 0 [] = Some batches
          \<and> concat batches = [1..n]
          \<and> int (length batches) = \<lceil>of_int n / of_int conc :: rat\<rceil>
          \<and> (\<forall>k<length batches.
                int (length (batches ! k))
                  = min conc (n - int (length (concat (take k batches))))
                \<and> int (length (batches ! k)) \<le> conc)"
    by (intro exI [of _ new]) simp
qed

theorem count_based_batches_witness:
  "(1 :: int) \<le> 7 \<and> (1 :: int) \<le> 3 \<and> ''medium'' \<in> fst ` set TEST_PATTERNS
   \<and> (\<exists>batches stats.
          runLoadTest \<lparr>cfg_pattern = ''medium'', cfg_totalQueries = 7, cfg_concurrency = 3\<rparr>
            NewMode False (\<lambda>qn. Resolved 40 300) 1000 2000 = Some (batches, Inr stats)
        \<and> map fst (concat batches) = [1..7]
        \<and> int (length batches) = 3
        \<and> totalQueries stats = 7)
   \<and> map_option (\<lambda>r. map (map fst) (fst r))
        (runLoadTest \<lparr>cfg_pattern = ''medium'', cfg_totalQueries = 7, cfg_concurrency = 3\<rparr>
            NewMode False (\<lambda>qn. Resolved 40 300) 1000 2000)
        = Some [[1, 2, 3], [4, 5, 6], [7]]
   \<and> create_batches 7 3 0 [] = Some [[1, 2, 3], [4, 5, 6], [7]]"
proof -
  have h1: "(1 :: int) \<le> 7" and h2: "(1 :: int) \<le> 3" by simp_all
  have h3: "''medium'' \<in> fst ` set TEST_PATTERNS" by (simp add: TEST_PATTERNS_def)
  have c: "\<lceil>of_int 7 / of_int 3 :: rat\<rceil> = 3" by code_simp
  have n: "nat 7 = 7" by simp
  from count_based_batches [OF h1 h2 h3, of NewMode False "\<lambda>qn. Resolved 40 300" 1000 2000]
  have e: "\<exists>batches stats.
          runLoadTest \<lparr>cfg_pattern = ''medium'', cfg_totalQueries = 7, cfg_concurrency = 3\<rparr>
            NewMode False (\<lambda>qn. Resolved 40 300) 1000 2000 = Some (batches, Inr stats)
        \<and> map fst (concat batches) = [1..7]
        \<and> int (length batches) = 3
        \<and> totalQueries stats = 7"
    unfolding c n by blast
  have v1: "map_option (\<lambda>r. map (map fst) (fst r))
        (runLoadTest \<lparr>cfg_pattern = ''medium'', cfg_totalQueries = 7, cfg_concurrency = 3\<rparr>
            NewMode False (\<lambda>qn. Resolved 40 300) 1000 2000)
        = Some [[1, 2, 3], [4, 5, 6], [7]]"
    by code_simp
  have v2: "create_batches 7 3 0 [] = Some [[1, 2, 3], [4, 5, 6], [7]]"
    by code_simp
  from h3 e v1 v2 show ?thesis by simp
qed

text \<open>
  C3. With a duration set the advanced script still sizes each batch by
  \<open>min conc (n - queryCount)\<close>: with \<open>n = 5\<close> and a concurrency of \<open>10\<close> the
  first batch has five calls and the batches after it are empty until the clock
  stops the loop; with \<open>n = 6\<close> and a concurrency of \<open>3\<close> two full batches are
  followed by empty ones.
\<close>

theorem duration_mode_batches:
  "map_option fst
     (runLoadTest_advanced
        \<lparr>adv_pattern = ''medium'', adv_totalQueries = 5, adv_concurrency = 10, adv_duration = 1\<rparr>
        (\<lambda>qn. Resolved 40 300) 0 (\<lambda>k. 400 * int k) 1200)
     = Some [[(1, Some 10), (2, Some 10), (3, Some 10), (4, Some 10), (5, Some 10)], [], []]
   \<and> map_option (\<lambda>r. map length (fst r))
     (runLoadTest_advanced
        \<lparr>adv_pattern = ''medium'', adv_totalQueries = 6, adv_concurrency = 3, adv_duration = 1\<rparr>
        (\<lambda>qn. Resolved 40 300) 0 (\<lambda>k. 300 * int k) 1200)
     = Some [3, 3, 0, 0]"
  by code_simp



lemma record_keeps_start:
  "record_outcome sh (s\<lparr>startTime := ta\<rparr>) c = (record_outcome sh s c)\<lparr>startTime := ta\<rparr>"
  by (cases "snd (snd c)") (simp_all add: record_outcome_new executeQueryWithNewClient_def)

lemma record_from_started:
  "foldl (record_outcome sh) (createStats\<lparr>startTime := ta\<rparr>) cs
     = (record_calls sh cs)\<lparr>startTime := ta\<rparr>"
proof (induction cs rule: rev_induct)
  case Nil
  show ?case by (simp add: record_calls_def)
next
  case (snoc c cs)
  then show ?case by (simp add: record_calls_snoc record_keeps_start)
qed

lemma run_result:
  assumes "1 \<le> n" and "1 \<le> conc" and "pat \<in> fst ` set TEST_PATTERNS"
  shows "\<exists>batches.
      runLoadTest \<lparr>cfg_pattern = pat, cfg_totalQueries = n, cfg_concurrency = conc\<rparr>
        mode sharedClient respond ta tb
      = Some (batches,
          Inr ((record_calls (mode = SharedMode \<and> sharedClient)
                  (map (\<lambda>c. (fst c, snd c, respond (fst c))) (concat batches)))
               \<lparr>startTime := ta, endTime := tb\<rparr>))
    \<and> map fst (concat batches) = [1..n]
    \<and> int (length batches) = \<lceil>of_int n / of_int conc :: rat\<rceil>
    \<and> (\<forall>k<length batches. int (length (batches ! k))
          = min conc (n - int (length (concat (take k batches)))))"
proof -
  from assms(1) have m: "max 0 (n - 0) = n" by simp
  from loop_partition [OF registered_resolves [OF assms(3)] assms(2),
      of n "mode = SharedMode \<and> sharedClient" respond 0 "[]" "createStats\<lparr>startTime := ta\<rparr>"]
  obtain new stats' where
        r: "dispatch_loop (\<lambda>qn. getQueryLimit qn pat) n conc (mode = SharedMode \<and> sharedClient)
              respond 0 [] (createStats\<lparr>startTime := ta\<rparr>) = Some ([] @ new, Inr stats')"
    and calls: "map fst (concat new) = [0 + 1..n]"
    and len: "int (length new) = \<lceil>of_int (max 0 (n - 0)) / of_int conc :: rat\<rceil>"
    and sizes: "\<forall>k<length new. int (length (new ! k))
          = min conc (n - 0 - int (length (concat (take k new))))"
    and rec: "stats' = foldl (record_outcome (mode = SharedMode \<and> sharedClient))
                (createStats\<lparr>startTime := ta\<rparr>)
                (map (\<lambda>c. (fst c, snd c, respond (fst c))) (concat new))"
    by blast
  have st: "stats' = (record_calls (mode = SharedMode \<and> sharedClient)
                  (map (\<lambda>c. (fst c, snd c, respond (fst c))) (concat new)))\<lparr>startTime := ta\<rparr>"
    using rec by (simp only: record_from_started)
  have run: "runLoadTest \<lparr>cfg_pattern = pat, cfg_totalQueries = n, cfg_concurrency = conc\<rparr>
              mode sharedClient respond ta tb
      = Some (new, Inr ((record_calls (mode = SharedMode \<and> sharedClient)
                  (map (\<lambda>c. (fst c, snd c, respond (fst c))) (concat new)))
               \<lparr>startTime := ta, endTime := tb\<rparr>))"
    using r st by (simp add: runLoadTest_def)
  from run calls len sizes m show ?thesis
    by (intro exI [of _ new]) simp
qed

section \<open>Reports of degenerate runs\<close>

lemma all_failed_fields:
  assumes "\<forall>c \<in> set cs. is_failure (snd (snd c))"
  shows "successfulQueries (record_calls sh cs) = 0
    \<and> queries (record_calls sh cs) = []
    \<and> totalLatency (record_calls sh cs) = 0
    \<and> minLatency (record_calls sh cs) = PosInfinity
    \<and> maxLatency (record_calls sh cs) = Fin 0
    \<and> totalQueries (record_calls sh cs) = length cs
    \<and> failedQueries (record_calls sh cs) = length cs"
  using assms
proof (induction cs rule: rev_induct)
  case Nil
  show ?case by (simp add: record_calls_Nil createStats_def)
next
  case (snoc c cs)
  then obtain msg where "snd (snd c) = Rejected msg"
    by (cases "snd (snd c)") auto
  with snoc show ?case
    by (simp add: record_calls_snoc record_outcome_new executeQueryWithNewClient_def)
qed

lemma all_failed_metrics:
  assumes "cs \<noteq> []" and "\<forall>c \<in> set cs. is_failure (snd (snd c))"
  shows "rep_successRate (calculateMetrics ((record_calls sh cs)\<lparr>startTime := ta, endTime := tb\<rparr>)) = Fin 0
    \<and> rep_avgLatency (calculateMetrics ((record_calls sh cs)\<lparr>startTime := ta, endTime := tb\<rparr>)) = 0
    \<and> rep_medianLatency (calculateMetrics ((record_calls sh cs)\<lparr>startTime := ta, endTime := tb\<rparr>)) = Some 0
    \<and> rep_p95Latency (calculateMetrics ((record_calls sh cs)\<lparr>startTime := ta, endTime := tb\<rparr>)) = Some 0
    \<and> rep_p99Latency (calculateMetrics ((record_calls sh cs)\<lparr>startTime := ta, endTime := tb\<rparr>)) = Some 0
    \<and> rep_minLatency (calculateMetrics ((record_calls sh cs)\<lparr>startTime := ta, endTime := tb\<rparr>)) = Fin 0
    \<and> rep_maxLatency (calculateMetrics ((record_calls sh cs)\<lparr>startTime := ta, endTime := tb\<rparr>)) = Fin 0"
proof -
  from assms(1) have "length cs \<noteq> 0" by simp
  then have "(of_nat (length cs) :: rat) \<noteq> 0" by simp
  with all_failed_fields [OF assms(2), where sh = sh] show ?thesis
    by (simp add: calculateMetrics_def sorted_latencies_def Let_def to_double_zero)
qed

text \<open>
  C8. After a non-empty sequence of calls that all failed, \<open>calculateMetrics\<close>
  still gives a report: the success rate is \<open>0\<close> and the average, median, 95th
  and 99th percentile, minimum and maximum latency are all \<open>0\<close>. So a run of
  \<open>route.ts\<close> with at least one query, a concurrency of at least one and a
  registered pattern, all of whose calls fail, ends with statistics that count
  every call as failed and whose report has these values.
\<close>

theorem all_failed_report:
  "(cs \<noteq> [] \<and> (\<forall>c \<in> set cs. is_failure (snd (snd c))) \<longrightarrow>
      rep_successRate (calculateMetrics ((record_calls sh cs)\<lparr>startTime := ta, endTime := tb\<rparr>)) = Fin 0
    \<and> rep_avgLatency (calculateMetrics ((record_calls sh cs)\<lparr>startTime := ta, endTime := tb\<rparr>)) = 0
    \<and> rep_medianLatency (calculateMetrics ((record_calls sh cs)\<lparr>startTime := ta, endTime := tb\<rparr>)) = Some 0
    \<and> rep_p95Latency (calculateMetrics ((record_calls sh cs)\<lparr>startTime := ta, endTime := tb\<rparr>)) = Some 0
    \<and> rep_p99Latency (calculateMetrics ((record_calls sh cs)\<lparr>startTime := ta, endTime := tb\<rparr>)) = Some 0
    \<and> rep_minLatency (calculateMetrics ((record_calls sh cs)\<lparr>startTime := ta, endTime := tb\<rparr>)) = Fin 0
    \<and> rep_maxLatency (calculateMetrics ((record_calls sh cs)\<lparr>startTime := ta, endTime := tb\<rparr>)) = Fin 0)
   \<and> (1 \<le> n \<and> 1 \<le> conc \<and> pat \<in> fst ` set TEST_PATTERNS \<and> (\<forall>qn. is_failure (respond qn)) \<longrightarrow>
        (\<exists>batches stats.
            runLoadTest \<lparr>cfg_pattern = pat, cfg_totalQueries = n, cfg_concurrency = conc\<rparr>
              mode sharedClient respond ta tb = Some (batches, Inr stats)
          \<and> totalQueries stats = nat n
          \<and> failedQueries stats = nat n
          \<and> rep_successRate (calculateMetrics stats) = Fin 0
          \<and> rep_avgLatency (calculateMetrics stats) = 0
          \<and> rep_medianLatency (calculateMetrics stats) = Some 0
          \<and> rep_p95Latency (calculateMetrics stats) = Some 0
          \<and> rep_p99Latency (calculateMetrics stats) = Some 0
          \<and> rep_minLatency (calculateMetrics stats) = Fin 0
          \<and> rep_maxLatency (calculateMetrics stats) = Fin 0))"
proof (intro conjI impI)
  assume h: "1 \<le> n \<and> 1 \<le> conc \<and> pat \<in> fst ` set TEST_PATTERNS \<and> (\<forall>qn. is_failure (respond qn))"
  let ?sh = "mode = SharedMode \<and> sharedClient"
  from h run_result [where n = n and conc = conc and pat = pat and mode = mode
      and sharedClient = sharedClient and respond = respond and ta = ta and tb = tb]
  obtain batches where
        run: "runLoadTest \<lparr>cfg_pattern = pat, cfg_totalQueries = n, cfg_concurrency = conc\<rparr>
          mode sharedClient respond ta tb
        = Some (batches,
            Inr ((record_calls ?sh (map (\<lambda>c. (fst c, snd c, respond (fst c))) (concat batches)))
                 \<lparr>startTime := ta, endTime := tb\<rparr>))"
    and calls: "map fst (concat batches) = [1..n]"
    by blast
  define cs where "cs = map (\<lambda>c. (fst c, snd c, respond (fst c))) (concat batches)"
  have "length (concat batches) = length [1..n]"
    using arg_cong [OF calls, of length] by simp
  then have len: "length cs = nat n" by (simp add: cs_def)
  with h have ne: "cs \<noteq> []" by auto
  have fail: "\<forall>c \<in> set cs. is_failure (snd (snd c))"
    using h by (auto simp add: cs_def)
  note f = all_failed_fields [OF fail, where sh = ?sh]
  note m = all_failed_metrics [OF ne fail, where sh = ?sh and ta = ta and tb = tb]
  have tq: "totalQueries ((record_calls ?sh cs)\<lparr>startTime := ta, endTime := tb\<rparr>) = nat n"
    using f len by simp
  have fq: "failedQueries ((record_calls ?sh cs)\<lparr>startTime := ta, endTime := tb\<rparr>) = nat n"
    using f len by simp
  from run tq fq m
  show "\<exists>batches stats.
            runLoadTest \<lparr>cfg_pattern = pat, cfg_totalQueries = n, cfg_concurrency = conc\<rparr>
              mode sharedClient respond ta tb = Some (batches, Inr stats)
          \<and> totalQueries stats = nat n
          \<and> failedQueries stats = nat n
          \<and> rep_successRate (calculateMetrics stats) = Fin 0
          \<and> rep_avgLatency (calculateMetrics stats) = 0
          \<and> rep_medianLatency (calculateMetrics stats) = Some 0
          \<and> rep_p95Latency (calculateMetrics stats) = Some 0
          \<and> rep_p99Latency (calculateMetrics stats) = Some 0
          \<and> rep_minLatency (calculateMetrics stats) = Fin 0
          \<and> rep_maxLatency (calculateMetrics stats) = Fin 0"
    unfolding cs_def [symmetric]
    by (intro exI [of _ batches]
          exI [of _ "(record_calls ?sh cs)\<lparr>startTime := ta, endTime := tb\<rparr>"]) simp
qed (use all_failed_metrics [where cs = cs and sh = sh and ta = ta and tb = tb] in blast)+

theorem all_failed_report_witness:
  "[(1, Some 10, Rejected ''rate limited''), (2::int, Some (10::int), Rejected ''rate limited'')] \<noteq> []
   \<and> is_failure (snd (snd (1 :: int, Some (10 :: int), Rejected ''rate limited'')))
   \<and> is_failure (snd (snd (2 :: int, Some (10 :: int), Rejected ''rate limited'')))
   \<and> rep_successRate (calculateMetrics ((record_calls False [(1, Some 10, Rejected ''rate limited''), (2, Some 10, Rejected ''rate limited'')])\<lparr>startTime := 1000, endTime := 1250\<rparr>)) = Fin 0
   \<and> rep_avgLatency (calculateMetrics ((record_calls False [(1, Some 10, Rejected ''rate limited''), (2, Some 10, Rejected ''rate limited'')])\<lparr>startTime := 1000, endTime := 1250\<rparr>)) = 0
   \<and> rep_medianLatency (calculateMetrics ((record_calls False [(1, Some 10, Rejected ''rate limited''), (2, Some 10, Rejected ''rate limited'')])\<lparr>startTime := 1000, endTime := 1250\<rparr>)) = Some 0
   \<and> rep_minLatency (calculateMetrics ((record_calls False [(1, Some 10, Rejected ''rate limited''), (2, Some 10, Rejected ''rate limited'')])\<lparr>startTime := 1000, endTime := 1250\<rparr>)) = Fin 0
   \<and> (1 :: int) \<le> 5 \<and> (1 :: int) \<le> 2 \<and> ''medium'' \<in> fst ` set TEST_PATTERNS
   \<and> is_failure (Rejected ''rate limited'')
   \<and> (\<exists>batches stats.
          runLoadTest \<lparr>cfg_pattern = ''medium'', cfg_totalQueries = 5, cfg_concurrency = 2\<rparr>
            NewMode False (\<lambda>qn. Rejected ''rate limited'') 1000 1250 = Some (batches, Inr stats)
        \<and> totalQueries stats = 5
        \<and> failedQueries stats = 5
        \<and> rep_successRate (calculateMetrics stats) = Fin 0
        \<and> rep_avgLatency (calculateMetrics stats) = 0
        \<and> rep_medianLatency (calculateMetrics stats) = Some 0
        \<and> rep_p95Latency (calculateMetrics stats) = Some 0
        \<and> rep_p99Latency (calculateMetrics stats) = Some 0
        \<and> rep_minLatency (calculateMetrics stats) = Fin 0
        \<and> rep_maxLatency (calculateMetrics stats) = Fin 0)"
proof -
  let ?cs = "[(1, Some 10, Rejected ''rate limited''), (2::int, Some (10::int), Rejected ''rate limited'')]"
  have h1: "?cs \<noteq> []" by simp
  have h2: "\<forall>c \<in> set ?cs. is_failure (snd (snd c))" by simp
  have h3: "''medium'' \<in> fst ` set TEST_PATTERNS" by (simp add: TEST_PATTERNS_def)
  have h4: "\<forall>qn :: int. is_failure (Rejected ''rate limited'')" by simp
  have n5: "nat 5 = 5" by simp
  note t = all_failed_report [where cs = ?cs and sh = False and ta = 1000 and tb = 1250
      and n = 5 and conc = 2 and pat = "''medium''" and respond = "\<lambda>qn. Rejected ''rate limited''"
      and mode = NewMode and sharedClient = False]
  from t h1 h2 have a:
    "rep_successRate (calculateMetrics ((record_calls False ?cs)\<lparr>startTime := 1000, endTime := 1250\<rparr>)) = Fin 0
     \<and> rep_avgLatency (calculateMetrics ((record_calls False ?cs)\<lparr>startTime := 1000, endTime := 1250\<rparr>)) = 0
     \<and> rep_medianLatency (calculateMetrics ((record_calls False ?cs)\<lparr>startTime := 1000, endTime := 1250\<rparr>)) = Some 0
     \<and> rep_minLatency (calculateMetrics ((record_calls False ?cs)\<lparr>startTime := 1000, endTime := 1250\<rparr>)) = Fin 0"
    by blast
  from t h3 h4 have b: "\<exists>batches stats.
          runLoadTest \<lparr>cfg_pattern = ''medium'', cfg_totalQueries = 5, cfg_concurrency = 2\<rparr>
            NewMode False (\<lambda>qn. Rejected ''rate limited'') 1000 1250 = Some (batches, Inr stats)
        \<and> totalQueries stats = 5
        \<and> failedQueries stats = 5
        \<and> rep_successRate (calculateMetrics stats) = Fin 0
        \<and> rep_avgLatency (calculateMetrics stats) = 0
        \<and> rep_medianLatency (calculateMetrics stats) = Some 0
        \<and> rep_p95Latency (calculateMetrics stats) = Some 0
        \<and> rep_p99Latency (calculateMetrics stats) = Some 0
        \<and> rep_minLatency (calculateMetrics stats) = Fin 0
        \<and> rep_maxLatency (calculateMetrics stats) = Fin 0"
    unfolding n5 by simp
  from a b h3 show ?thesis by simp
qed

text \<open>
  C6. A run of \<open>route.ts\<close> with \<open>totalQueries = 0\<close> launches nothing and returns
  the fresh statistics; \<open>calculateMetrics\<close> then divides \<open>0\<close> by \<open>0\<close>: the
  success rate is \<open>NaN\<close> whatever the two clock readings are, and so is the rate
  of queries per second when they are equal.
\<close>

theorem zero_calls_report:
  "runLoadTest \<lparr>cfg_pattern = ''medium'', cfg_totalQueries = 0, cfg_concurrency = 10\<rparr>
      NewMode False (\<lambda>qn. Resolved 40 300) 1000 1000
     = Some ([], Inr (createStats\<lparr>startTime := 1000, endTime := 1000\<rparr>))
   \<and> rep_qps (calculateMetrics (createStats\<lparr>startTime := 1000, endTime := 1000\<rparr>)) = NaN
   \<and> rep_successRate (calculateMetrics (createStats\<lparr>startTime := 1000, endTime := 1000\<rparr>)) = NaN
   \<and> rep_successRate (calculateMetrics (createStats\<lparr>startTime := 1000, endTime := 1003\<rparr>)) = NaN"
proof -
  have run: "runLoadTest \<lparr>cfg_pattern = ''medium'', cfg_totalQueries = 0, cfg_concurrency = 10\<rparr>
      NewMode False (\<lambda>qn. Resolved 40 300) 1000 1000
     = Some ([], Inr (createStats\<lparr>startTime := 1000, endTime := 1000\<rparr>))"
    by code_simp
  have qps: "rep_qps (calculateMetrics (createStats\<lparr>startTime := 1000, endTime := 1000\<rparr>)) = NaN"
    by (simp add: metrics_qps createStats_def double_of_zero signed_infinity_def)
  have rate: "rep_successRate (calculateMetrics (createStats\<lparr>startTime := ta, endTime := tb\<rparr>)) = NaN"
    for ta tb
    by (simp add: metrics_successRate createStats_def signed_infinity_def)
  from run qps rate show ?thesis by simp
qed

end
